theory Spec2Isabelle
  imports Complex_Main "HOL-Library.Sublist"
begin

section \<open>Repository structure validator (validate-repo-structure.ts)\<close>

text \<open>
  A shallow embedding of \<^verbatim>\<open>packages/dev-tools/src/validate-repo-structure.ts\<close>.

  File names and paths are \<open>string\<close>s. The file tree is a finite datatype. The
  process-scoped array \<^verbatim>\<open>errors\<close> is an explicit list that every rule takes and
  returns. A thrown exception and \<^verbatim>\<open>process.exit\<close> are values of an outcome
  type. Console output (\<^verbatim>\<open>printResults\<close>) writes to stdout only and is left out.
\<close>

subsection \<open>The string methods the validator calls\<close>

text \<open>
  \<^verbatim>\<open>s.lastIndexOf(c)\<close>: the index of the last occurrence of the character, or -1.
  The scan keeps the index of the latest occurrence seen so far.
\<close>

fun lastIndexOf_from :: "char \<Rightarrow> string \<Rightarrow> int \<Rightarrow> int \<Rightarrow> int" where
  "lastIndexOf_from c [] i found = found"
| "lastIndexOf_from c (x # xs) i found =
     lastIndexOf_from c xs (i + 1) (if x = c then i else found)"

definition lastIndexOf :: "string \<Rightarrow> char \<Rightarrow> int" where
  "lastIndexOf s c = lastIndexOf_from c s 0 (- 1)"

text \<open>
  \<^verbatim>\<open>s.substring(start)\<close>: a negative start counts as 0, a start beyond the end
  gives the empty string.
\<close>

definition substring :: "string \<Rightarrow> int \<Rightarrow> string" where
  "substring s start = drop (nat (max 0 start)) s"

text \<open>
  \<^verbatim>\<open>s.toLowerCase()\<close>: the letters A to Z are lowered, every other character is
  kept. Outside ASCII, JavaScript lowers only U+212A to an ASCII letter (k) and U+0130
  to i followed by U+0307; neither can yield an entry of the extension tables below.
\<close>

definition toLowerChar :: "char \<Rightarrow> char" where
  "toLowerChar c =
     (case map_of (zip ''ABCDEFGHIJKLMNOPQRSTUVWXYZ'' ''abcdefghijklmnopqrstuvwxyz'') c of
        Some l \<Rightarrow> l
      | None \<Rightarrow> c)"

definition toLowerCase :: "string \<Rightarrow> string" where
  "toLowerCase s = map toLowerChar s"

text \<open>\<^verbatim>\<open>s.endsWith(t)\<close>: the last \<open>length t\<close> characters of \<open>s\<close> are \<open>t\<close>.\<close>

definition endsWith :: "string \<Rightarrow> string \<Rightarrow> bool" where
  "endsWith s t = (length t \<le> length s \<and> drop (length s - length t) s = t)"

text \<open>\<^verbatim>\<open>s.startsWith(t)\<close>, used to read the anchored regular expressions.\<close>

definition startsWith :: "string \<Rightarrow> string \<Rightarrow> bool" where
  "startsWith s t = (take (length t) s = t)"

text \<open>\<^verbatim>\<open>s.includes(t)\<close>: \<open>t\<close> occurs at some position of \<open>s\<close>.\<close>

fun includes_str :: "string \<Rightarrow> string \<Rightarrow> bool" where
  "includes_str [] t = (t = [])"
| "includes_str (x # xs) t = (startsWith (x # xs) t \<or> includes_str xs t)"

text \<open>\<^verbatim>\<open>relPath.replaceAll('\\', '/')\<close>: every backslash becomes a slash.\<close>

definition backslash :: char where
  "backslash = CHR 0x5C"

definition normalizeSeparators :: "string \<Rightarrow> string" where
  "normalizeSeparators s = map (\<lambda>c. if c = backslash then CHR ''/'' else c) s"

text \<open>Decimal rendering of a number inside a template literal.\<close>

fun digits :: "nat \<Rightarrow> string" where
  "digits n =
     (if n < 10 then [''0123456789'' ! n]
      else digits (n div 10) @ [''0123456789'' ! (n mod 10)])"

declare digits.simps [simp del]

subsection \<open>Violations and configuration\<close>

text \<open>\<^verbatim>\<open>ERROR_TYPES\<close> and the \<^verbatim>\<open>ValidationError\<close> interface.\<close>

datatype error_type = FORBIDDEN_DIRECTORY | LARGE_FILE | STRUCTURAL_VIOLATION

datatype severity_level = Error | Warning

record ValidationError =
  type :: error_type
  path :: string
  message :: string
  severity :: severity_level

text \<open>
  \<^verbatim>\<open>ValidatorConfig\<close>: four optional fields. A regular expression of the
  configuration is the predicate its \<^verbatim>\<open>test\<close> method computes.
\<close>

record ValidatorConfig =
  allowedScriptsPackages :: "string list option"
  noExamplesPatterns :: "(string \<Rightarrow> bool) list option"
  allowedRootTsFiles :: "string list option"
  allowedPackageTsPaths :: "(string \<Rightarrow> bool) list option"

definition emptyConfig :: ValidatorConfig where
  "emptyConfig =
     \<lparr>allowedScriptsPackages = None, noExamplesPatterns = None,
      allowedRootTsFiles = None, allowedPackageTsPaths = None\<rparr>"

definition WORKTREES_DIR :: string where
  "WORKTREES_DIR = ''.worktrees''"

definition COMMON_SKIP_DIRS :: "string set" where
  "COMMON_SKIP_DIRS = {''node_modules'', ''dist'', ''.git''}"

definition SKIP_DIRS_WITH_HUSKY :: "string set" where
  "SKIP_DIRS_WITH_HUSKY = COMMON_SKIP_DIRS \<union> {''.husky'', WORKTREES_DIR}"

subsection \<open>The file tree\<close>

text \<open>
  What the validator reads of the file system. A regular file has a name and a size in
  bytes. A directory has a name, a flag telling whether \<^verbatim>\<open>readdir\<close> on it succeeds,
  and its entries. A symbolic link has a name and the node it resolves to (\<open>None\<close> when
  it dangles). \<open>SpecialN\<close> is any other entry: a socket, a FIFO, a device.
\<close>

datatype fsnode =
    FileN string nat
  | DirN string bool "fsnode list"
  | SymlinkN string "fsnode option"
  | SpecialN string

text \<open>The \<^verbatim>\<open>Dirent\<close> view of an entry: a symbolic link is neither a directory nor a file.\<close>

fun node_name :: "fsnode \<Rightarrow> string" where
  "node_name (FileN n sz) = n"
| "node_name (DirN n r cs) = n"
| "node_name (SymlinkN n t) = n"
| "node_name (SpecialN n) = n"

fun isDirectory :: "fsnode \<Rightarrow> bool" where
  "isDirectory (DirN n r cs) = True"
| "isDirectory other = False"

fun isFile :: "fsnode \<Rightarrow> bool" where
  "isFile (FileN n sz) = True"
| "isFile other = False"

text \<open>Path resolution follows symbolic links.\<close>

fun follow :: "fsnode \<Rightarrow> fsnode option" where
  "follow (SymlinkN n None) = None"
| "follow (SymlinkN n (Some t)) = follow t"
| "follow other = Some other"

text \<open>
  \<^verbatim>\<open>readdir(dir, { withFileTypes: true })\<close> where \<open>dir\<close> resolves to the given
  node (\<open>None\<close>: no such path). \<open>None\<close> as a result stands for the thrown error.
\<close>

definition readdir :: "fsnode option \<Rightarrow> fsnode list option" where
  "readdir node =
     (case node of
        None \<Rightarrow> None
      | Some n \<Rightarrow>
          (case follow n of
             Some (DirN nm r cs) \<Rightarrow> if r then Some cs else None
           | other \<Rightarrow> None))"

text \<open>The node at \<^verbatim>\<open>join(dir, name)\<close>, where \<open>dir\<close> resolves to the given node.\<close>

definition lookup :: "fsnode option \<Rightarrow> string \<Rightarrow> fsnode option" where
  "lookup node nm =
     (case node of
        None \<Rightarrow> None
      | Some n \<Rightarrow>
          (case follow n of
             Some (DirN dn r cs) \<Rightarrow> find (\<lambda>c. node_name c = nm) cs
           | other \<Rightarrow> None))"

text \<open>\<^verbatim>\<open>existsSync(path)\<close>: the path resolves, to an entry of any kind.\<close>

definition existsSync :: "fsnode option \<Rightarrow> bool" where
  "existsSync node = (case node of None \<Rightarrow> False | Some n \<Rightarrow> follow n \<noteq> None)"

text \<open>
  \<^verbatim>\<open>stat(path).size\<close> of a regular file; the walk hands it to the file callback.
  \<^verbatim>\<open>stat\<close> on a regular file that \<^verbatim>\<open>readdir\<close> has just listed is taken to
  succeed.
\<close>

fun stat_size :: "fsnode \<Rightarrow> nat" where
  "stat_size (FileN n sz) = sz"
| "stat_size other = 0"

subsection \<open>Paths\<close>

text \<open>
  \<^verbatim>\<open>join(a, b)\<close> of \<^verbatim>\<open>node:path\<close> on the arguments the validator passes: \<open>a\<close> is
  \<^verbatim>\<open>'.'\<close> or a relative or absolute path without a trailing separator, \<open>b\<close> is the
  name of a directory entry. A leading \<^verbatim>\<open>'.'\<close> is dropped; on Windows every slash
  of the result becomes a backslash.
\<close>

datatype platform = Posix | Win32

definition path_join :: "platform \<Rightarrow> string \<Rightarrow> string \<Rightarrow> string" where
  "path_join p a b =
     (case p of
        Posix \<Rightarrow> if a = ''.'' then b else a @ ''/'' @ b
      | Win32 \<Rightarrow>
          map (\<lambda>c. if c = CHR ''/'' then backslash else c)
            (if a = ''.'' then b else a @ [backslash] @ b))"

text \<open>The machine the script runs on: path flavour, \<^verbatim>\<open>REPO_ROOT\<close> and the node there.\<close>

record host =
  platform :: platform
  REPO_ROOT :: string
  rootNode :: fsnode

subsection \<open>walkDirectory\<close>

text \<open>The argument object of the two callbacks, and the \<^verbatim>\<open>options\<close> object.\<close>

record entry =
  name :: string
  fullPath :: string
  relPath :: string

record 's walk_options =
  skipDirs :: "string set option"
  onDirectory :: "(entry \<Rightarrow> 's \<Rightarrow> 's) option"
  onFile :: "(entry \<Rightarrow> nat \<Rightarrow> 's \<Rightarrow> 's) option"

text \<open>
  \<^verbatim>\<open>walkDirectory(dir, relativePath, options)\<close>. The first argument is what
  \<^verbatim>\<open>readdir(dir)\<close> returns, \<open>None\<close> when it throws (the \<^verbatim>\<open>catch\<close> returns).
  \<open>walkEntries\<close> is the \<^verbatim>\<open>for\<close> loop over the entries. A callback changes the
  state \<open>'s\<close>; the file callback also receives what \<^verbatim>\<open>stat(fullPath).size\<close> gives.
\<close>

function walkDirectory ::
    "platform \<Rightarrow> fsnode list option \<Rightarrow> string \<Rightarrow> string \<Rightarrow> 's walk_options \<Rightarrow> 's \<Rightarrow> 's"
  and walkEntries ::
    "platform \<Rightarrow> fsnode list \<Rightarrow> string \<Rightarrow> string \<Rightarrow> 's walk_options \<Rightarrow> 's \<Rightarrow> 's"
where
  "walkDirectory p None dir relativePath options s = s"
| "walkDirectory p (Some entries) dir relativePath options s =
     walkEntries p entries dir relativePath options s"
| "walkEntries p [] dir relativePath options s = s"
| "walkEntries p (e # rest) dir relativePath options s =
     walkEntries p rest dir relativePath options
       (if isDirectory e then
          (if (case skipDirs options of None \<Rightarrow> False | Some sk \<Rightarrow> node_name e \<in> sk) then s
           else
             walkDirectory p (readdir (Some e))
               (path_join p dir (node_name e)) (path_join p relativePath (node_name e)) options
               (case onDirectory options of
                  None \<Rightarrow> s
                | Some f \<Rightarrow>
                    f \<lparr>name = node_name e, fullPath = path_join p dir (node_name e),
                       relPath = path_join p relativePath (node_name e)\<rparr> s))
        else if isFile e then
          (case onFile options of
             None \<Rightarrow> s
           | Some f \<Rightarrow>
               f \<lparr>name = node_name e, fullPath = path_join p dir (node_name e),
                  relPath = path_join p relativePath (node_name e)\<rparr> (stat_size e) s)
        else s)"
  by pat_completeness auto

termination
  apply (relation "measure (\<lambda>x. case x of
            Inl (p, l, dir, rel, opts, s) \<Rightarrow> size_option (size_list size) l
          | Inr (p, es, dir, rel, opts, s) \<Rightarrow> size_list size es)")
      apply simp_all
  subgoal for e rest options
    by (cases e) (simp_all add: readdir_def)
  done

declare walkEntries.simps(2) [simp del]

subsection \<open>Outcomes\<close>

text \<open>
  A rule is an action on the \<^verbatim>\<open>errors\<close> array. It returns, or throws, or the
  process exits with a status; the array is the second component in every case.
\<close>

datatype outcome = Returned | Threw | Exited nat

type_synonym action = "ValidationError list \<Rightarrow> outcome \<times> ValidationError list"

text \<open>\<^verbatim>\<open>await f(); await g();\<close> runs \<open>g\<close> only when \<open>f\<close> returned.\<close>

definition andThen :: "action \<Rightarrow> action \<Rightarrow> action" where
  "andThen f g errors =
     (case f errors of
        (Returned, errors') \<Rightarrow> g errors'
      | (other, errors') \<Rightarrow> (other, errors'))"

subsection \<open>The regular expressions\<close>

text \<open>
  Every regular expression of the script starts with \<^verbatim>\<open>^packages\/[^/]+\/\<close>. The class
  \<^verbatim>\<open>[^/]\<close> excludes the slash that must follow it, so the only possible match takes
  the longest run of non-slash characters after \<^verbatim>\<open>packages/\<close>; the run must not be
  empty and a slash must follow. \<open>afterPackageName\<close> returns what follows that slash.
\<close>

definition afterPackageName :: "string \<Rightarrow> string option" where
  "afterPackageName q =
     (if startsWith q ''packages/'' then
        (let r = drop (length ''packages/'') q;
             nm = takeWhile (\<lambda>c. c \<noteq> CHR ''/'') r;
             rest = dropWhile (\<lambda>c. c \<noteq> CHR ''/'') r
         in if nm = [] \<or> rest = [] then None else Some (tl rest))
      else None)"

text \<open>\<^verbatim>\<open>/^packages\/[^/]+\/package\.json$/\<close>\<close>

definition isInPackagesDir :: "string \<Rightarrow> bool" where
  "isInPackagesDir q = (afterPackageName q = Some ''package.json'')"

text \<open>\<^verbatim>\<open>/^packages\/[^/]+\/test\/fixtures\//\<close>\<close>

definition isInTestFixtures :: "string \<Rightarrow> bool" where
  "isInTestFixtures q =
     (case afterPackageName q of None \<Rightarrow> False | Some r \<Rightarrow> startsWith r ''test/fixtures/'')"

text \<open>\<^verbatim>\<open>/^packages\/[^/]+\/d\//\<close> for a directory name \<open>d\<close>.\<close>

definition packageSubdirPattern :: "string \<Rightarrow> string \<Rightarrow> bool" where
  "packageSubdirPattern d q =
     (case afterPackageName q of None \<Rightarrow> False | Some r \<Rightarrow> startsWith r (d @ ''/''))"

definition BUILT_IN_PACKAGE_PATTERNS :: "(string \<Rightarrow> bool) list" where
  "BUILT_IN_PACKAGE_PATTERNS =
     map packageSubdirPattern [''src'', ''test'', ''examples'', ''generated'', ''scripts'']"

text \<open>
  \<^verbatim>\<open>/^packages\/[^/]+\/(vitest\.(config|integration\.config|system\.config)|knip\.config)\.ts$/\<close>
\<close>

definition PACKAGE_CONFIG_PATTERN :: "string \<Rightarrow> bool" where
  "PACKAGE_CONFIG_PATTERN q =
     (case afterPackageName q of
        None \<Rightarrow> False
      | Some r \<Rightarrow>
          r \<in> {''vitest.config.ts'', ''vitest.integration.config.ts'',
               ''vitest.system.config.ts'', ''knip.config.ts''})"

subsection \<open>Rule: no nested package.json\<close>

definition nestedPackageJson_onFile ::
    "entry \<Rightarrow> nat \<Rightarrow> ValidationError list \<Rightarrow> ValidationError list" where
  "nestedPackageJson_onFile e sz errors =
     (if name e = ''package.json'' then
        (let normalizedPath = normalizeSeparators (relPath e);
             isRootPackageJson = (normalizedPath = ''package.json'')
         in if \<not> isRootPackageJson \<and> \<not> isInPackagesDir normalizedPath
                \<and> \<not> isInTestFixtures normalizedPath
            then errors @
              [\<lparr>type = FORBIDDEN_DIRECTORY, path = relPath e,
                message = ''Nested package.json detected. Only root, packages/*/, and test/fixtures/ can have package.json files.'',
                severity = Error\<rparr>]
            else errors)
      else errors)"

definition validateNoNestedPackageJson :: "host \<Rightarrow> action" where
  "validateNoNestedPackageJson h errors =
     (Returned,
      walkDirectory (platform h) (readdir (Some (rootNode h))) (REPO_ROOT h) ''.''
        \<lparr>skipDirs = Some (COMMON_SKIP_DIRS \<union> {WORKTREES_DIR}), onDirectory = None,
         onFile = Some nestedPackageJson_onFile\<rparr>
        errors)"

subsection \<open>Rule: source file locations\<close>

definition BUILT_IN_ROOT_TS_FILES :: "string set" where
  "BUILT_IN_ROOT_TS_FILES =
     {''eslint.config.ts'', ''vitest.config.ts'', ''vitest.integration.config.ts'',
      ''vitest.system.config.ts'', ''vitest.workspace.ts''}"

definition sourceFileLocations_onFile ::
    "ValidatorConfig \<Rightarrow> entry \<Rightarrow> nat \<Rightarrow> ValidationError list \<Rightarrow> ValidationError list" where
  "sourceFileLocations_onFile config e sz errors =
     (let extraRootFiles = set (case allowedRootTsFiles config of None \<Rightarrow> [] | Some l \<Rightarrow> l);
          allowedRoot = BUILT_IN_ROOT_TS_FILES \<union> extraRootFiles;
          extraPackagePatterns =
            (case allowedPackageTsPaths config of None \<Rightarrow> [] | Some l \<Rightarrow> l);
          allowedPackagePatterns = BUILT_IN_PACKAGE_PATTERNS @ extraPackagePatterns
      in if \<not> endsWith (name e) ''.ts'' then errors
         else
           (let normalizedPath = normalizeSeparators (relPath e)
            in if normalizedPath \<in> allowedRoot then errors
               else if PACKAGE_CONFIG_PATTERN normalizedPath then errors
               else if \<not> list_ex (\<lambda>pat. pat normalizedPath) allowedPackagePatterns
               then errors @
                 [\<lparr>type = STRUCTURAL_VIOLATION, path = relPath e,
                   message = ''TypeScript file in wrong location. Source files must be in packages/*/src/, packages/*/test/, or other configured locations.'',
                   severity = Error\<rparr>]
               else errors))"

definition validateSourceFileLocations :: "host \<Rightarrow> ValidatorConfig \<Rightarrow> action" where
  "validateSourceFileLocations h config errors =
     (Returned,
      walkDirectory (platform h) (readdir (Some (rootNode h))) (REPO_ROOT h) ''.''
        \<lparr>skipDirs = Some {''node_modules'', ''dist'', ''.git'', ''.husky'', ''.worktrees''},
         onDirectory = None, onFile = Some (sourceFileLocations_onFile config)\<rparr>
        errors)"

subsection \<open>Rule: test file naming\<close>

text \<open>The four \<^verbatim>\<open>if\<close> statements of the callback, one function each, run in order.\<close>

definition check_spec_suffix :: "entry \<Rightarrow> ValidationError list \<Rightarrow> ValidationError list" where
  "check_spec_suffix e errors =
     (if endsWith (name e) ''.spec.ts'' then
        errors @
          [\<lparr>type = STRUCTURAL_VIOLATION, path = relPath e,
            message = ''Use .test.ts instead of .spec.ts for consistency.'',
            severity = Error\<rparr>]
      else errors)"

definition check_integration_location ::
    "entry \<Rightarrow> ValidationError list \<Rightarrow> ValidationError list" where
  "check_integration_location e errors =
     (if endsWith (name e) ''.integration.test.ts''
         \<and> \<not> includes_str (normalizeSeparators (relPath e)) ''/test/integration/''
      then errors @
          [\<lparr>type = STRUCTURAL_VIOLATION, path = relPath e,
            message = ''Integration tests must be in test/integration/ directory.'',
            severity = Error\<rparr>]
      else errors)"

definition check_system_location :: "entry \<Rightarrow> ValidationError list \<Rightarrow> ValidationError list" where
  "check_system_location e errors =
     (if endsWith (name e) ''.system.test.ts''
         \<and> \<not> includes_str (normalizeSeparators (relPath e)) ''/test/system/''
      then errors @
          [\<lparr>type = STRUCTURAL_VIOLATION, path = relPath e,
            message = ''System tests must be in test/system/ directory.'',
            severity = Error\<rparr>]
      else errors)"

definition check_unit_in_special_dir ::
    "entry \<Rightarrow> ValidationError list \<Rightarrow> ValidationError list" where
  "check_unit_in_special_dir e errors =
     (if endsWith (name e) ''.test.ts''
         \<and> \<not> endsWith (name e) ''.integration.test.ts''
         \<and> \<not> endsWith (name e) ''.system.test.ts''
         \<and> (includes_str (normalizeSeparators (relPath e)) ''/test/integration/''
              \<or> includes_str (normalizeSeparators (relPath e)) ''/test/system/'')
      then errors @
          [\<lparr>type = STRUCTURAL_VIOLATION, path = relPath e,
            message = ''Unit tests in integration/system directories must use .integration.test.ts or .system.test.ts suffix.'',
            severity = Error\<rparr>]
      else errors)"

definition testFileNaming_onFile ::
    "entry \<Rightarrow> nat \<Rightarrow> ValidationError list \<Rightarrow> ValidationError list" where
  "testFileNaming_onFile e sz errors =
     check_unit_in_special_dir e
       (check_system_location e (check_integration_location e (check_spec_suffix e errors)))"

definition validateTestFileNaming :: "host \<Rightarrow> action" where
  "validateTestFileNaming h errors =
     (Returned,
      walkDirectory (platform h) (readdir (Some (rootNode h))) (REPO_ROOT h) ''.''
        \<lparr>skipDirs = Some COMMON_SKIP_DIRS, onDirectory = None,
         onFile = Some testFileNaming_onFile\<rparr>
        errors)"

subsection \<open>Rules on the immediate package directories\<close>

text \<open>The node of \<^verbatim>\<open>join(REPO_ROOT, 'packages')\<close>.\<close>

definition packagesNode :: "host \<Rightarrow> fsnode option" where
  "packagesNode h = lookup (Some (rootNode h)) ''packages''"

text \<open>
  \<^verbatim>\<open>validateNoExamplesInPatternPackages\<close>: returns at once without patterns;
  otherwise \<^verbatim>\<open>readdir(packagesDir)\<close> is not guarded and may throw.
\<close>

definition examples_check ::
    "(string \<Rightarrow> bool) list \<Rightarrow> fsnode \<Rightarrow> ValidationError list \<Rightarrow> ValidationError list" where
  "examples_check patterns e errors =
     (if \<not> isDirectory e then errors
      else if \<not> list_ex (\<lambda>pat. pat (node_name e)) patterns then errors
      else if existsSync (lookup (Some e) ''examples'') then
        errors @
          [\<lparr>type = FORBIDDEN_DIRECTORY, path = ''packages/'' @ node_name e @ ''/examples/'',
            message = ''Package '' @ [CHR 0x22] @ node_name e @ [CHR 0x22]
              @ '' matches a restricted pattern and must not have an /examples directory.'',
            severity = Error\<rparr>]
      else errors)"

definition validateNoExamplesInPatternPackages :: "host \<Rightarrow> ValidatorConfig \<Rightarrow> action" where
  "validateNoExamplesInPatternPackages h config errors =
     (let patterns = (case noExamplesPatterns config of None \<Rightarrow> [] | Some l \<Rightarrow> l)
      in if length patterns = 0 then (Returned, errors)
         else
           (case readdir (packagesNode h) of
              None \<Rightarrow> (Threw, errors)
            | Some entries \<Rightarrow> (Returned, fold (examples_check patterns) entries errors)))"

text \<open>\<^verbatim>\<open>validateScriptsLocation\<close>: reads the packages directory first, unguarded.\<close>

definition scripts_check ::
    "string set \<Rightarrow> fsnode \<Rightarrow> ValidationError list \<Rightarrow> ValidationError list" where
  "scripts_check allowed e errors =
     (if \<not> isDirectory e \<or> node_name e \<in> allowed then errors
      else if existsSync (lookup (Some e) ''scripts'') then
        errors @
          [\<lparr>type = FORBIDDEN_DIRECTORY, path = ''packages/'' @ node_name e @ ''/scripts/'',
            message = ''Only packages in allowedScriptsPackages may have /scripts directories. Move utilities to dev-tools package.'',
            severity = Error\<rparr>]
      else errors)"

definition validateScriptsLocation :: "host \<Rightarrow> ValidatorConfig \<Rightarrow> action" where
  "validateScriptsLocation h config errors =
     (case readdir (packagesNode h) of
        None \<Rightarrow> (Threw, errors)
      | Some entries \<Rightarrow>
          (let allowed =
                 set (case allowedScriptsPackages config of
                        None \<Rightarrow> [''dev-tools'']
                      | Some l \<Rightarrow> l)
           in (Returned, fold (scripts_check allowed) entries errors)))"

subsection \<open>Rule: no shell scripts\<close>

text \<open>\<^verbatim>\<open>name.substring(name.lastIndexOf('.'))\<close>\<close>

definition extension :: "string \<Rightarrow> string" where
  "extension nm = substring nm (lastIndexOf nm (CHR ''.''))"

definition FORBIDDEN_EXTENSIONS :: "string set" where
  "FORBIDDEN_EXTENSIONS = {''.sh'', ''.ps1'', ''.bat'', ''.cmd''}"

definition noShellScripts_onFile ::
    "entry \<Rightarrow> nat \<Rightarrow> ValidationError list \<Rightarrow> ValidationError list" where
  "noShellScripts_onFile e sz errors =
     (let ext = toLowerCase (extension (name e))
      in if ext \<in> FORBIDDEN_EXTENSIONS then
           errors @
             [\<lparr>type = FORBIDDEN_DIRECTORY, path = relPath e,
               message = ''Shell scripts are forbidden. Use TypeScript for cross-platform automation (packages/dev-tools/src/).'',
               severity = Error\<rparr>]
         else errors)"

definition validateNoShellScripts :: "host \<Rightarrow> action" where
  "validateNoShellScripts h errors =
     (Returned,
      walkDirectory (platform h) (readdir (Some (rootNode h))) (REPO_ROOT h) ''.''
        \<lparr>skipDirs = Some SKIP_DIRS_WITH_HUSKY, onDirectory = None,
         onFile = Some noShellScripts_onFile\<rparr>
        errors)"

subsection \<open>Rules on the fixtures directories\<close>

text \<open>
  \<^verbatim>\<open>forEachPackageFixturesDir\<close>: the unguarded \<^verbatim>\<open>readdir(packagesDir)\<close>, then
  the checker on \<^verbatim>\<open>packages/<name>/test/fixtures\<close> of every directory entry. The
  checker receives, with the two paths, what \<^verbatim>\<open>readdir\<close> returns for the first.
\<close>

definition forEachPackageFixturesDir ::
    "host \<Rightarrow> (fsnode list option \<Rightarrow> string \<Rightarrow> string \<Rightarrow> ValidationError list \<Rightarrow> ValidationError list)
      \<Rightarrow> action" where
  "forEachPackageFixturesDir h checkDirectory errors =
     (let packagesDir = path_join (platform h) (REPO_ROOT h) ''packages''
      in case readdir (packagesNode h) of
           None \<Rightarrow> (Threw, errors)
         | Some entries \<Rightarrow>
             (Returned,
              fold (\<lambda>e errs.
                     if isDirectory e then
                       checkDirectory
                         (readdir (lookup (lookup (Some e) ''test'') ''fixtures''))
                         (path_join (platform h)
                            (path_join (platform h)
                               (path_join (platform h) packagesDir (node_name e)) ''test'')
                            ''fixtures'')
                         (''packages/'' @ node_name e @ ''/test/fixtures'')
                         errs
                     else errs)
                entries errors))"

text \<open>\<^verbatim>\<open>validateNoStagingDirectories\<close>\<close>

definition noStaging_onDirectory :: "entry \<Rightarrow> ValidationError list \<Rightarrow> ValidationError list" where
  "noStaging_onDirectory e errors =
     (if name e = ''staging'' then
        errors @
          [\<lparr>type = FORBIDDEN_DIRECTORY, path = relPath e,
            message = ''Staging directories should not be committed. Add to .gitignore and remove from git.'',
            severity = Error\<rparr>]
      else errors)"

definition validateNoStagingDirectories :: "host \<Rightarrow> action" where
  "validateNoStagingDirectories h =
     forEachPackageFixturesDir h
       (\<lambda>listing dir relativePath.
          walkDirectory (platform h) listing dir relativePath
            \<lparr>skipDirs = None, onDirectory = Some noStaging_onDirectory, onFile = None\<rparr>)"

text \<open>
  \<^verbatim>\<open>validateTestFixtureSizes\<close>. A file size is an integer below \<open>2^53\<close>, so the
  division by 1024 is exact and \<open>sizeKB\<close> is the real quotient. \<^verbatim>\<open>Math.round\<close>
  rounds a half upwards.
\<close>

definition MAX_SIZE_KB :: nat where
  "MAX_SIZE_KB = 100"

definition ALLOWED_LARGE_EXTENSIONS :: "string set" where
  "ALLOWED_LARGE_EXTENSIONS = {''.zip'', ''.tar'', ''.gz'', ''.tgz'', ''.tar.gz''}"

definition Math_round :: "real \<Rightarrow> int" where
  "Math_round x = \<lfloor>x + 1 / 2\<rfloor>"

definition isCompressed :: "string \<Rightarrow> bool" where
  "isCompressed nm = (toLowerCase (extension nm) \<in> ALLOWED_LARGE_EXTENSIONS)"

definition fixtureSizes_onFile ::
    "entry \<Rightarrow> nat \<Rightarrow> ValidationError list \<Rightarrow> ValidationError list" where
  "fixtureSizes_onFile e sz errors =
     (let sizeKB = real sz / 1024
      in if sizeKB > real MAX_SIZE_KB then
           (if \<not> isCompressed (name e) then
              errors @
                [\<lparr>type = LARGE_FILE, path = relPath e,
                  message = ''File is '' @ digits (nat (Math_round sizeKB)) @ ''KB (>''
                    @ digits MAX_SIZE_KB
                    @ ''KB). Compress large test fixtures or use external storage.'',
                  severity = Warning\<rparr>]
            else errors)
         else errors)"

definition validateTestFixtureSizes :: "host \<Rightarrow> action" where
  "validateTestFixtureSizes h =
     forEachPackageFixturesDir h
       (\<lambda>listing dir relativePath.
          walkDirectory (platform h) listing dir relativePath
            \<lparr>skipDirs = None, onDirectory = None, onFile = Some fixtureSizes_onFile\<rparr>)"

subsection \<open>validate and the entry point\<close>

text \<open>
  \<^verbatim>\<open>validate(config)\<close>: the eight rules in order, then \<^verbatim>\<open>process.exit(1)\<close> when
  some element of \<^verbatim>\<open>errors\<close> has severity \<^verbatim>\<open>'error'\<close>.
\<close>

definition exitIfErrors :: action where
  "exitIfErrors errors =
     (if list_ex (\<lambda>e. severity e = Error) errors then (Exited 1, errors)
      else (Returned, errors))"

definition validate :: "host \<Rightarrow> ValidatorConfig \<Rightarrow> action" where
  "validate h config =
     andThen (validateNoNestedPackageJson h)
    (andThen (validateSourceFileLocations h config)
    (andThen (validateTestFileNaming h)
    (andThen (validateNoExamplesInPatternPackages h config)
    (andThen (validateScriptsLocation h config)
    (andThen (validateNoShellScripts h)
    (andThen (validateNoStagingDirectories h)
    (andThen (validateTestFixtureSizes h)
     exitIfErrors)))))))"




subsection \<open>The callbacks a walk makes\<close>

text \<open>
  One event per callback invocation. \<open>walk_trace\<close> is \<open>walkDirectory\<close> itself, run
  with two callbacks that append their argument to a list: the sequence of calls the
  walk makes when both callbacks are given.
\<close>

datatype event = DirEvent entry | FileEvent entry nat

definition recorder :: "string set option \<Rightarrow> event list walk_options" where
  "recorder sk =
     \<lparr>skipDirs = sk, onDirectory = Some (\<lambda>e t. t @ [DirEvent e]),
      onFile = Some (\<lambda>e sz t. t @ [FileEvent e sz])\<rparr>"

definition walk_trace ::
    "platform \<Rightarrow> fsnode list option \<Rightarrow> string \<Rightarrow> string \<Rightarrow> string set option \<Rightarrow> event list" where
  "walk_trace p listing dir relativePath sk =
     walkDirectory p listing dir relativePath (recorder sk) []"

definition entries_trace ::
    "platform \<Rightarrow> fsnode list \<Rightarrow> string \<Rightarrow> string \<Rightarrow> string set option \<Rightarrow> event list" where
  "entries_trace p es dir relativePath sk =
     walkEntries p es dir relativePath (recorder sk) []"

text \<open>What a walk's own callbacks do with an event.\<close>

fun apply_event :: "'s walk_options \<Rightarrow> 's \<Rightarrow> event \<Rightarrow> 's" where
  "apply_event options s (DirEvent e) =
     (case onDirectory options of None \<Rightarrow> s | Some f \<Rightarrow> f e s)"
| "apply_event options s (FileEvent e sz) =
     (case onFile options of None \<Rightarrow> s | Some f \<Rightarrow> f e sz s)"

text \<open>The loop body of \<open>walkEntries\<close>, named.\<close>

definition skipped :: "string set option \<Rightarrow> fsnode \<Rightarrow> bool" where
  "skipped sk e = (case sk of None \<Rightarrow> False | Some S \<Rightarrow> node_name e \<in> S)"

definition entry_of :: "platform \<Rightarrow> string \<Rightarrow> string \<Rightarrow> fsnode \<Rightarrow> entry" where
  "entry_of p dir rel e =
     \<lparr>name = node_name e, fullPath = path_join p dir (node_name e),
      relPath = path_join p rel (node_name e)\<rparr>"

definition visitEntry ::
    "platform \<Rightarrow> fsnode \<Rightarrow> string \<Rightarrow> string \<Rightarrow> 's walk_options \<Rightarrow> 's \<Rightarrow> 's" where
  "visitEntry p e dir rel opts s =
     (if isDirectory e then
        (if skipped (skipDirs opts) e then s
         else walkDirectory p (readdir (Some e)) (path_join p dir (node_name e))
                (path_join p rel (node_name e)) opts
                (apply_event opts s (DirEvent (entry_of p dir rel e))))
      else if isFile e then apply_event opts s (FileEvent (entry_of p dir rel e) (stat_size e))
      else s)"

subsection \<open>Vocabulary of the properties\<close>

text \<open>
  The part of a file name that starts at its last dot; empty when the name has no dot.
\<close>

definition lastDotSuffix :: "string \<Rightarrow> string" where
  "lastDotSuffix nm =
     (if CHR ''.'' \<in> set nm then CHR ''.'' # rev (takeWhile (\<lambda>c. c \<noteq> CHR ''.'') (rev nm))
      else [])"

text \<open>
  The valid locations of a package.json, in the words of the specification: the root
  manifest, \<^verbatim>\<open>packages/<name>/package.json\<close>, or anything under
  \<^verbatim>\<open>packages/<name>/test/fixtures/\<close>, where a name is a non-empty run without a slash.
\<close>

definition valid_manifest_location :: "string \<Rightarrow> bool" where
  "valid_manifest_location q =
     (q = ''package.json''
      \<or> (\<exists>n. n \<noteq> [] \<and> CHR ''/'' \<notin> set n \<and> q = ''packages/'' @ n @ ''/package.json'')
      \<or> (\<exists>n rest. n \<noteq> [] \<and> CHR ''/'' \<notin> set n
             \<and> q = ''packages/'' @ n @ ''/test/fixtures/'' @ rest))"

text \<open>A naming check triggers on an entry when it appends a violation for it.\<close>

definition triggers ::
    "(entry \<Rightarrow> ValidationError list \<Rightarrow> ValidationError list) \<Rightarrow> entry \<Rightarrow> bool" where
  "triggers check e = (check e [] \<noteq> [])"

text \<open>
  The tree without the directories named in a set, at every depth: what is left when
  each such directory is deleted with everything beneath it.
\<close>

fun prune_node :: "string set \<Rightarrow> fsnode \<Rightarrow> fsnode"
  and prune_list :: "string set \<Rightarrow> fsnode list \<Rightarrow> fsnode list" where
  "prune_node S (DirN n r cs) = DirN n r (prune_list S cs)"
| "prune_node S (FileN n sz) = FileN n sz"
| "prune_node S (SymlinkN n t) = SymlinkN n t"
| "prune_node S (SpecialN n) = SpecialN n"
| "prune_list S [] = []"
| "prune_list S (c # cs) =
     (if isDirectory c \<and> node_name c \<in> S then prune_list S cs
      else prune_node S c # prune_list S cs)"

text \<open>
  The tree without the entries that are neither a directory nor a regular file.
\<close>

fun strip_node :: "fsnode \<Rightarrow> fsnode"
  and strip_list :: "fsnode list \<Rightarrow> fsnode list" where
  "strip_node (DirN n r cs) = DirN n r (strip_list cs)"
| "strip_node (FileN n sz) = FileN n sz"
| "strip_node (SymlinkN n t) = SymlinkN n t"
| "strip_node (SpecialN n) = SpecialN n"
| "strip_list [] = []"
| "strip_list (c # cs) =
     (if isDirectory c \<or> isFile c then strip_node c # strip_list cs else strip_list cs)"

text \<open>
  The entry an event is about. \<open>chain_ok\<close>: its relative path is the relative path
  of the start, extended by the names of a chain of directories, none of them in the
  set, and then by the name of the entry.
\<close>

fun event_entry :: "event \<Rightarrow> entry" where
  "event_entry (DirEvent e) = e"
| "event_entry (FileEvent e sz) = e"

definition chain_ok :: "platform \<Rightarrow> string set \<Rightarrow> string \<Rightarrow> event \<Rightarrow> bool" where
  "chain_ok p S rel ev =
     (\<exists>anc. set anc \<inter> S = {}
        \<and> relPath (event_entry ev) = foldl (path_join p) rel (anc @ [name (event_entry ev)]))"

text \<open>A small tree with a \<^verbatim>\<open>dist\<close> directory at two depths and a file named alike.\<close>

definition example_tree :: "fsnode list" where
  "example_tree =
     [DirN ''dist'' True [FileN ''a.sh'' 3, DirN ''sub'' True [FileN ''b.sh'' 3]],
      DirN ''src'' True [FileN ''c.ts'' 7, DirN ''dist'' True [FileN ''d.sh'' 3]],
      FileN ''dist'' 5]"

text \<open>
  The severity of a violation matches its type: \<^verbatim>\<open>warning\<close> for \<^verbatim>\<open>large-file\<close>,
  \<^verbatim>\<open>error\<close> for the two other types.
\<close>

definition severity_matches_type :: "ValidationError \<Rightarrow> bool" where
  "severity_matches_type v = ((severity v = Warning) = (type v = LARGE_FILE))"

text \<open>
  A rule is well behaved when its outcome does not depend on the list it is given, it
  leaves that list in place and appends to it what it appends to the empty list, and
  every violation it appends has a severity matching its type.
\<close>

definition rule_ok :: "action \<Rightarrow> bool" where
  "rule_ok r =
     ((\<forall>errors. r errors = (fst (r []), errors @ snd (r [])))
      \<and> list_all severity_matches_type (snd (r [])))"

text \<open>The eight rules of \<open>validate\<close> in order, without the final exit.\<close>

definition runRules :: "host \<Rightarrow> ValidatorConfig \<Rightarrow> action" where
  "runRules h config =
     andThen (validateNoNestedPackageJson h)
    (andThen (validateSourceFileLocations h config)
    (andThen (validateTestFileNaming h)
    (andThen (validateNoExamplesInPatternPackages h config)
    (andThen (validateScriptsLocation h config)
    (andThen (validateNoShellScripts h)
    (andThen (validateNoStagingDirectories h)
             (validateTestFixtureSizes h)))))))"

text \<open>The list of the eight rules.\<close>

definition the_rules :: "host \<Rightarrow> ValidatorConfig \<Rightarrow> action list" where
  "the_rules h config =
     [validateNoNestedPackageJson h, validateSourceFileLocations h config,
      validateTestFileNaming h, validateNoExamplesInPatternPackages h config,
      validateScriptsLocation h config, validateNoShellScripts h,
      validateNoStagingDirectories h, validateTestFixtureSizes h]"



definition host_err :: host where
  "host_err =
     \<lparr>platform = Posix, REPO_ROOT = ''/repo'',
      rootNode = DirN ''repo'' True
        [DirN ''packages'' True
           [DirN ''a'' True
              [DirN ''src'' True [FileN ''package.json'' 80],
               DirN ''test'' True [DirN ''fixtures'' True [FileN ''big.json'' 204800]]]]]\<rparr>"


definition big_json_warning :: ValidationError where
  "big_json_warning =
     \<lparr>type = LARGE_FILE, path = ''packages/a/test/fixtures/big.json'',
      message = ''File is 200KB (>100KB). Compress large test fixtures or use external storage.'',
      severity = Warning\<rparr>"

definition nested_manifest_error :: "string \<Rightarrow> ValidationError" where
  "nested_manifest_error q =
     \<lparr>type = FORBIDDEN_DIRECTORY, path = q,
      message = ''Nested package.json detected. Only root, packages/*/, and test/fixtures/ can have package.json files.'',
      severity = Error\<rparr>"

section \<open>Properties of the walk\<close>

lemma size_readdir_isDirectory:
  "isDirectory e \<Longrightarrow> size_option (size_list size) (readdir (Some e)) < Suc (size e + k)"
  by (cases e) (simp_all add: readdir_def)

lemma walkEntries_Cons:
  "walkEntries p (e # rest) dir rel opts s =
     walkEntries p rest dir rel opts (visitEntry p e dir rel opts s)"
  by (simp add: walkEntries.simps(2) visitEntry_def skipped_def entry_of_def)

lemma recorder_simps [simp]:
  "skipDirs (recorder sk) = sk"
  "onDirectory (recorder sk) = Some (\<lambda>e t. t @ [DirEvent e])"
  "onFile (recorder sk) = Some (\<lambda>e sz t. t @ [FileEvent e sz])"
  by (simp_all add: recorder_def)

lemma walk_induct [case_names None Some Nil Cons]:
  assumes none: "\<And>dir rel. P None dir rel"
    and some: "\<And>es dir rel. Q es dir rel \<Longrightarrow> P (Some es) dir rel"
    and nil: "\<And>dir rel. Q [] dir rel"
    and cons: "\<And>e rest dir rel.
           (\<And>dir' rel'. isDirectory e \<Longrightarrow> P (readdir (Some e)) dir' rel')
           \<Longrightarrow> Q rest dir rel \<Longrightarrow> Q (e # rest) dir rel"
  shows "P l dir rel" and "Q es dir rel"
proof -
  have Q: "\<forall>dir rel. Q es dir rel" for es
  proof (induction es rule: measure_induct_rule [where f = "size_list size"])
    case (less es)
    show ?case
    proof (cases es)
      case Nil
      then show ?thesis using nil by simp
    next
      case (Cons e rest)
      have r: "Q rest dir rel" for dir rel
        using less Cons by simp
      have d: "P (readdir (Some e)) dir' rel'" if "isDirectory e" for dir' rel'
      proof (cases "readdir (Some e)")
        case None
        then show ?thesis using none by simp
      next
        case (Some cs)
        then have "size_list size cs < size_list size es"
          using size_readdir_isDirectory [OF that, of "size_list size rest"] Cons by simp
        then show ?thesis using less some Some by simp
      qed
      show ?thesis using cons d r Cons by blast
    qed
  qed
  show "Q es dir rel" using Q by blast
  show "P l dir rel" using none some Q by (cases l) auto
qed

lemma recorder_append:
  "\<forall>t. walkDirectory p l dir rel (recorder sk) t = t @ walkDirectory p l dir rel (recorder sk) []"
  "\<forall>t. walkEntries p es dir rel (recorder sk) t = t @ walkEntries p es dir rel (recorder sk) []"
proof (induction l dir rel and es dir rel rule: walk_induct)
  case (None dir rel)
  show ?case by simp
next
  case (Some es dir rel)
  show ?case
  proof
    fix t
    show "walkDirectory p (Some es) dir rel (recorder sk) t
        = t @ walkDirectory p (Some es) dir rel (recorder sk) []"
      using Some [THEN spec, of t] by simp
  qed
next
  case (Nil dir rel)
  show ?case by simp
next
  case (Cons e rest dir rel)
  let ?R = "recorder sk"
  have rest: "walkEntries p rest dir rel ?R t = t @ walkEntries p rest dir rel ?R []" for t
    using Cons(2) by blast
  have sub: "walkDirectory p (readdir (Some e)) d r ?R t
      = t @ walkDirectory p (readdir (Some e)) d r ?R []" if "isDirectory e" for d r t
    using Cons(1) [OF that] by blast
  have visit: "visitEntry p e dir rel ?R t = t @ visitEntry p e dir rel ?R []" for t
  proof (cases "isDirectory e")
    case True
    show ?thesis
      using sub [OF True, of _ _ "t @ [DirEvent (entry_of p dir rel e)]"]
        sub [OF True, of _ _ "[DirEvent (entry_of p dir rel e)]"]
      by (simp add: visitEntry_def True)
  next
    case False
    then show ?thesis by (simp add: visitEntry_def)
  qed
  show ?case
  proof
    fix t
    have "walkEntries p (e # rest) dir rel ?R t
        = walkEntries p rest dir rel ?R (visitEntry p e dir rel ?R t)"
      by (rule walkEntries_Cons)
    also have "\<dots> = visitEntry p e dir rel ?R t @ walkEntries p rest dir rel ?R []"
      by (rule rest)
    also have "\<dots> = t @ visitEntry p e dir rel ?R [] @ walkEntries p rest dir rel ?R []"
      using visit [of t] by simp
    also have "\<dots> = t @ walkEntries p rest dir rel ?R (visitEntry p e dir rel ?R [])"
      using rest [of "visitEntry p e dir rel ?R []"] by simp
    also have "\<dots> = t @ walkEntries p (e # rest) dir rel ?R []"
      by (simp only: walkEntries_Cons)
    finally show "walkEntries p (e # rest) dir rel ?R t
        = t @ walkEntries p (e # rest) dir rel ?R []" .
  qed
qed

lemma walk_trace_simps:
  "walk_trace p None dir rel sk = []"
  "walk_trace p (Some es) dir rel sk = entries_trace p es dir rel sk"
  "entries_trace p [] dir rel sk = []"
  "entries_trace p (e # rest) dir rel sk =
     (if isDirectory e then
        (if skipped sk e then []
         else DirEvent (entry_of p dir rel e)
              # walk_trace p (readdir (Some e)) (path_join p dir (node_name e))
                  (path_join p rel (node_name e)) sk)
      else if isFile e then [FileEvent (entry_of p dir rel e) (stat_size e)]
      else [])
     @ entries_trace p rest dir rel sk"
proof -
  show "walk_trace p None dir rel sk = []"
    by (simp add: walk_trace_def)
  show "walk_trace p (Some es) dir rel sk = entries_trace p es dir rel sk"
    by (simp add: walk_trace_def entries_trace_def)
  show "entries_trace p [] dir rel sk = []"
    by (simp add: entries_trace_def)
  have "entries_trace p (e # rest) dir rel sk
      = visitEntry p e dir rel (recorder sk) [] @ entries_trace p rest dir rel sk"
    unfolding entries_trace_def walkEntries_Cons
    by (rule recorder_append(2) [of p rest dir rel sk, THEN spec])
  moreover have "walkDirectory p l d r (recorder sk) [ev] = ev # walk_trace p l d r sk" for l d r ev
    using recorder_append(1) [of p l d r sk, THEN spec, of "[ev]"] by (simp add: walk_trace_def)
  ultimately show "entries_trace p (e # rest) dir rel sk =
     (if isDirectory e then
        (if skipped sk e then []
         else DirEvent (entry_of p dir rel e)
              # walk_trace p (readdir (Some e)) (path_join p dir (node_name e))
                  (path_join p rel (node_name e)) sk)
      else if isFile e then [FileEvent (entry_of p dir rel e) (stat_size e)]
      else [])
     @ entries_trace p rest dir rel sk"
    by (simp add: visitEntry_def)
qed

text \<open>
  A walk with any callbacks is the fold of these callbacks over the trace: the trace
  is exactly the sequence of callback invocations.
\<close>

lemma walk_fusion:
  "\<forall>s. walkDirectory p l dir rel opts s
        = foldl (apply_event opts) s (walk_trace p l dir rel (skipDirs opts))"
  "\<forall>s. walkEntries p es dir rel opts s
        = foldl (apply_event opts) s (entries_trace p es dir rel (skipDirs opts))"
proof (induction l dir rel and es dir rel rule: walk_induct)
  case (None dir rel)
  show ?case by (simp add: walk_trace_simps)
next
  case (Some es dir rel)
  then show ?case by (simp add: walk_trace_simps)
next
  case (Nil dir rel)
  show ?case by (simp add: walk_trace_simps)
next
  case (Cons e rest dir rel)
  show ?case
    using Cons(1) Cons(2)
    by (simp add: walkEntries_Cons walk_trace_simps visitEntry_def)
qed

section \<open>A start directory that cannot be listed\<close>

text \<open>
  Claim C6. When \<^verbatim>\<open>readdir\<close> fails on the start directory (the path does not
  exist, is not a directory, or the directory cannot be read), \<open>walkDirectory\<close>
  returns the state it was given, here the violation list, and makes no callback
  invocation. Its result is a state: the function has no other way to end.
\<close>

theorem walkDirectory_unreadable_start:
  "readdir node = None \<Longrightarrow>
     walkDirectory p (readdir node) dir rel options s = s
     \<and> walk_trace p (readdir node) dir rel sk = []"
  by (simp add: walk_trace_def)

theorem walkDirectory_unreadable_start_witness:
  "readdir (Some (DirN ''fixtures'' False [FileN ''big.json'' 200000])) = None
   \<and> readdir (None :: fsnode option) = None
   \<and> walkDirectory Posix (readdir (Some (DirN ''fixtures'' False [FileN ''big.json'' 200000])))
        ''/repo/packages/a/test/fixtures'' ''packages/a/test/fixtures''
        \<lparr>skipDirs = None, onDirectory = Some noStaging_onDirectory,
         onFile = Some fixtureSizes_onFile\<rparr> [] = []
   \<and> walk_trace Posix (readdir (Some (DirN ''fixtures'' False [FileN ''big.json'' 200000])))
        ''/repo/packages/a/test/fixtures'' ''packages/a/test/fixtures'' None = []"
  using walkDirectory_unreadable_start
    [of "Some (DirN ''fixtures'' False [FileN ''big.json'' 200000])" Posix
        "''/repo/packages/a/test/fixtures''" "''packages/a/test/fixtures''"
        "\<lparr>skipDirs = None, onDirectory = Some noStaging_onDirectory,
         onFile = Some fixtureSizes_onFile\<rparr>" "[]" None]
  by (simp add: readdir_def)

section \<open>File extensions\<close>

lemma lastIndexOf_from_absent:
  "c \<notin> set xs \<Longrightarrow> lastIndexOf_from c xs i found = found"
  by (induction xs arbitrary: i found) auto

lemma lastIndexOf_from_last:
  "c \<notin> set suf \<Longrightarrow> lastIndexOf_from c (pre @ c # suf) i found = i + int (length pre)"
  by (induction pre arbitrary: i found) (auto simp: lastIndexOf_from_absent)

lemma extension_split:
  "CHR ''.'' \<notin> set suf \<Longrightarrow> extension (pre @ CHR ''.'' # suf) = CHR ''.'' # suf"
  by (simp add: extension_def lastIndexOf_def lastIndexOf_from_last substring_def)

lemma extension_no_dot:
  "CHR ''.'' \<notin> set nm \<Longrightarrow> extension nm = nm"
  by (simp add: extension_def lastIndexOf_def lastIndexOf_from_absent substring_def)

lemma lastDotSuffix_split:
  "CHR ''.'' \<notin> set suf \<Longrightarrow> lastDotSuffix (pre @ CHR ''.'' # suf) = CHR ''.'' # suf"
  by (simp add: lastDotSuffix_def takeWhile_append2 [where xs = "rev suf"] takeWhile_append)

lemma extension_lastDotSuffix:
  "extension nm = (if CHR ''.'' \<in> set nm then lastDotSuffix nm else nm)"
proof (cases "CHR ''.'' \<in> set nm")
  case True
  then obtain pre suf where "nm = pre @ CHR ''.'' # suf" "CHR ''.'' \<notin> set suf"
    by (meson split_list_last)
  then show ?thesis by (simp add: extension_split lastDotSuffix_split)
next
  case False
  then show ?thesis by (simp add: extension_no_dot)
qed

lemma toLowerChar_dot [simp]: "toLowerChar c = CHR ''.'' \<longleftrightarrow> c = CHR ''.''"
  by (auto simp add: toLowerChar_def split: if_splits)

lemma toLowerChar_dot' [simp]: "CHR ''.'' = toLowerChar c \<longleftrightarrow> c = CHR ''.''"
  using toLowerChar_dot [of c] by (simp only: eq_commute)

lemma dot_in_toLowerCase [simp]: "CHR ''.'' \<in> set (toLowerCase s) \<longleftrightarrow> CHR ''.'' \<in> set s"
  by (induction s) (auto simp add: toLowerCase_def)

lemma toLowerCase_lastDotSuffix:
  "toLowerCase (lastDotSuffix nm) = lastDotSuffix (toLowerCase nm)"
proof (cases "CHR ''.'' \<in> set nm")
  case True
  then obtain pre suf where nm: "nm = pre @ CHR ''.'' # suf" "CHR ''.'' \<notin> set suf"
    by (meson split_list_last)
  have "toLowerCase nm = toLowerCase pre @ CHR ''.'' # toLowerCase suf"
    using nm by (simp add: toLowerCase_def toLowerChar_def)
  moreover have "CHR ''.'' \<notin> set (toLowerCase suf)" using nm by simp
  ultimately show ?thesis using nm
    by (simp add: lastDotSuffix_split) (simp add: toLowerCase_def toLowerChar_def)
next
  case False
  then show ?thesis
    using dot_in_toLowerCase [of nm] by (simp add: lastDotSuffix_def) (simp add: toLowerCase_def)
qed

lemma lastDotSuffix_one_dot:
  "lastDotSuffix nm = [] \<or> (\<exists>suf. lastDotSuffix nm = CHR ''.'' # suf \<and> CHR ''.'' \<notin> set suf)"
  by (auto simp: lastDotSuffix_def dest: set_takeWhileD)

lemma lastDotSuffix_not_tar_gz: "toLowerCase (lastDotSuffix nm) \<noteq> ''.tar.gz''"
  using lastDotSuffix_one_dot [of "toLowerCase nm"] by (auto simp: toLowerCase_lastDotSuffix)



lemma toLowerCase_Nil [simp]: "toLowerCase [] = []"
  by (simp add: toLowerCase_def)

lemma no_dot_toLowerCase_neq:
  "CHR ''.'' \<notin> set nm \<Longrightarrow> toLowerCase nm \<noteq> CHR ''.'' # r"
  by (metis dot_in_toLowerCase list.set_intros(1))

lemma isCompressed_lastDotSuffix:
  "isCompressed nm = (toLowerCase (lastDotSuffix nm) \<in> {''.zip'', ''.tar'', ''.gz'', ''.tgz''})"
proof (cases "CHR ''.'' \<in> set nm")
  case True
  then show ?thesis
    using lastDotSuffix_not_tar_gz [of nm]
    by (simp add: isCompressed_def ALLOWED_LARGE_EXTENSIONS_def extension_lastDotSuffix)
next
  case False
  then show ?thesis
    by (simp add: isCompressed_def ALLOWED_LARGE_EXTENSIONS_def extension_lastDotSuffix
        lastDotSuffix_def no_dot_toLowerCase_neq)
qed

lemma forbidden_lastDotSuffix:
  "(toLowerCase (extension nm) \<in> FORBIDDEN_EXTENSIONS)
     = (toLowerCase (lastDotSuffix nm) \<in> {''.sh'', ''.ps1'', ''.bat'', ''.cmd''})"
proof (cases "CHR ''.'' \<in> set nm")
  case True
  then show ?thesis
    by (simp add: FORBIDDEN_EXTENSIONS_def extension_lastDotSuffix)
next
  case False
  then show ?thesis
    by (simp add: FORBIDDEN_EXTENSIONS_def extension_lastDotSuffix
        lastDotSuffix_def no_dot_toLowerCase_neq)
qed

text \<open>
  Claim C9. The compressed-format exemption of the fixture-size rule and the
  forbidden-extension test of the shell-script rule depend on the file name only through
  the lower-cased part of the name that starts at its last dot: two entries that agree
  there (and on their path) get the same result from both callbacks, and each test is
  a membership test of that lower-cased suffix. So names that differ in case only are
  treated alike. The suffix holds exactly one dot, so the table entry \<^verbatim>\<open>.tar.gz\<close>
  is never the extension of any name, and \<^verbatim>\<open>x.tar.gz\<close> is exempt as \<^verbatim>\<open>.gz\<close>.
\<close>

theorem extension_tests_last_dot_suffix:
  "(toLowerCase (lastDotSuffix (name e1)) = toLowerCase (lastDotSuffix (name e2))
      \<and> relPath e1 = relPath e2 \<longrightarrow>
      fixtureSizes_onFile e1 sz errors = fixtureSizes_onFile e2 sz errors
      \<and> noShellScripts_onFile e1 sz errors = noShellScripts_onFile e2 sz errors)
   \<and> isCompressed nm = (toLowerCase (lastDotSuffix nm) \<in> {''.zip'', ''.tar'', ''.gz'', ''.tgz''})
   \<and> ((noShellScripts_onFile e sz errors \<noteq> errors)
        = (toLowerCase (lastDotSuffix (name e)) \<in> {''.sh'', ''.ps1'', ''.bat'', ''.cmd''}))
   \<and> (toLowerCase n1 = toLowerCase n2 \<longrightarrow>
        isCompressed n1 = isCompressed n2
        \<and> (toLowerCase (extension n1) \<in> FORBIDDEN_EXTENSIONS)
            = (toLowerCase (extension n2) \<in> FORBIDDEN_EXTENSIONS))
   \<and> toLowerCase (extension nm) \<noteq> ''.tar.gz''
   \<and> toLowerCase (extension ''x.tar.gz'') = ''.gz''"
proof (intro conjI impI)
  assume a: "toLowerCase (lastDotSuffix (name e1)) = toLowerCase (lastDotSuffix (name e2))
      \<and> relPath e1 = relPath e2"
  then have "isCompressed (name e1) = isCompressed (name e2)"
    by (simp add: isCompressed_lastDotSuffix)
  with a show "fixtureSizes_onFile e1 sz errors = fixtureSizes_onFile e2 sz errors"
    by (simp add: fixtureSizes_onFile_def)
  from a have "(toLowerCase (extension (name e1)) \<in> FORBIDDEN_EXTENSIONS)
      = (toLowerCase (extension (name e2)) \<in> FORBIDDEN_EXTENSIONS)"
    by (simp add: forbidden_lastDotSuffix)
  with a show "noShellScripts_onFile e1 sz errors = noShellScripts_onFile e2 sz errors"
    by (simp add: noShellScripts_onFile_def)
next
  show "isCompressed nm = (toLowerCase (lastDotSuffix nm) \<in> {''.zip'', ''.tar'', ''.gz'', ''.tgz''})"
    by (rule isCompressed_lastDotSuffix)
next
  show "(noShellScripts_onFile e sz errors \<noteq> errors)
        = (toLowerCase (lastDotSuffix (name e)) \<in> {''.sh'', ''.ps1'', ''.bat'', ''.cmd''})"
    using forbidden_lastDotSuffix [of "name e"] by (simp add: noShellScripts_onFile_def)
next
  assume "toLowerCase n1 = toLowerCase n2"
  then have "toLowerCase (lastDotSuffix n1) = toLowerCase (lastDotSuffix n2)"
    by (simp add: toLowerCase_lastDotSuffix)
  then show "isCompressed n1 = isCompressed n2"
    and "(toLowerCase (extension n1) \<in> FORBIDDEN_EXTENSIONS)
            = (toLowerCase (extension n2) \<in> FORBIDDEN_EXTENSIONS)"
    by (simp_all add: isCompressed_lastDotSuffix forbidden_lastDotSuffix)
next
  show "toLowerCase (extension nm) \<noteq> ''.tar.gz''"
    using lastDotSuffix_not_tar_gz [of nm] no_dot_toLowerCase_neq [of nm "''tar.gz''"]
    by (simp add: extension_lastDotSuffix)
next
  show "toLowerCase (extension ''x.tar.gz'') = ''.gz''"
    by (simp add: extension_def lastIndexOf_def substring_def toLowerCase_def toLowerChar_def)
qed

theorem extension_tests_last_dot_suffix_witness:
  "toLowerCase (lastDotSuffix ''BIG.ZIP'') = toLowerCase (lastDotSuffix ''other.zip'')
   \<and> fixtureSizes_onFile \<lparr>name = ''BIG.ZIP'', fullPath = ''/r/f'', relPath = ''f''\<rparr> 200000 []
     = fixtureSizes_onFile \<lparr>name = ''other.zip'', fullPath = ''/r/f'', relPath = ''f''\<rparr> 200000 []
   \<and> fixtureSizes_onFile \<lparr>name = ''BIG.ZIP'', fullPath = ''/r/f'', relPath = ''f''\<rparr> 200000 [] = []
   \<and> isCompressed ''x.tar.gz''
   \<and> toLowerCase ''RUN.SH'' = toLowerCase ''run.sh''
   \<and> toLowerCase (extension ''RUN.SH'') \<in> FORBIDDEN_EXTENSIONS
   \<and> noShellScripts_onFile \<lparr>name = ''RUN.SH'', fullPath = ''/r/RUN.SH'', relPath = ''RUN.SH''\<rparr> 1 []
        \<noteq> []"
  using extension_tests_last_dot_suffix
    [of "\<lparr>name = ''BIG.ZIP'', fullPath = ''/r/f'', relPath = ''f''\<rparr>"
        "\<lparr>name = ''other.zip'', fullPath = ''/r/f'', relPath = ''f''\<rparr>" 200000 "[]"
        "''x.tar.gz''"
        "\<lparr>name = ''RUN.SH'', fullPath = ''/r/RUN.SH'', relPath = ''RUN.SH''\<rparr>"
        "''RUN.SH''" "''run.sh''"]
  by (simp add: lastDotSuffix_def toLowerCase_def toLowerChar_def FORBIDDEN_EXTENSIONS_def
      fixtureSizes_onFile_def MAX_SIZE_KB_def isCompressed_def extension_def lastIndexOf_def
      substring_def ALLOWED_LARGE_EXTENSIONS_def noShellScripts_onFile_def)

section \<open>Rules that only append\<close>

text \<open>
  When the callbacks of a walk append to the list they are given, the walk appends the
  concatenation of what the callbacks produce, in the order of the trace.
\<close>

lemma foldl_appending:
  assumes "\<And>s x. f s x = s @ f [] x"
  shows "foldl f s xs = s @ concat (map (f []) xs)"
proof (induction xs arbitrary: s)
  case Nil
  show ?case by simp
next
  case (Cons x xs)
  have "foldl f s (x # xs) = foldl f (f s x) xs" by simp
  also have "\<dots> = f s x @ concat (map (f []) xs)" by (rule Cons.IH)
  also have "\<dots> = s @ f [] x @ concat (map (f []) xs)"
    using assms [of s x] by simp
  finally show ?case by simp
qed

lemma walk_appending:
  assumes "\<And>s ev. apply_event opts s ev = s @ apply_event opts [] ev"
  shows "walkDirectory p l dir rel opts s
       = s @ concat (map (apply_event opts []) (walk_trace p l dir rel (skipDirs opts)))"
  using walk_fusion(1) [of p l dir rel opts] foldl_appending [of "apply_event opts", OF assms]
  by simp

section \<open>The fixture-size rule\<close>




section \<open>The nested-manifest rule\<close>

text \<open>What the anchored prefix \<^verbatim>\<open>^packages\/[^/]+\/\<close> matches.\<close>

lemma afterPackageName_Some:
  "afterPackageName q = Some r
     \<longleftrightarrow> (\<exists>n. n \<noteq> [] \<and> CHR ''/'' \<notin> set n \<and> q = ''packages/'' @ n @ ''/'' @ r)"
proof
  assume a: "afterPackageName q = Some r"
  define r0 where "r0 = drop (length ''packages/'') q"
  define nm where "nm = takeWhile (\<lambda>c. c \<noteq> CHR ''/'') r0"
  define rest where "rest = dropWhile (\<lambda>c. c \<noteq> CHR ''/'') r0"
  from a have sw: "startsWith q ''packages/''"
    by (simp add: afterPackageName_def split: if_splits)
  then have q: "q = ''packages/'' @ r0"
    unfolding startsWith_def r0_def by (metis append_take_drop_id)
  from a sw have "(if nm = [] \<or> rest = [] then None else Some (tl rest)) = Some r"
    unfolding afterPackageName_def Let_def nm_def rest_def r0_def by simp
  then have ne: "nm \<noteq> []" and dne: "rest \<noteq> []" and r: "r = tl rest"
    by (auto split: if_splits)
  from dne have "hd rest = CHR ''/''"
    using hd_dropWhile [of "\<lambda>c. c \<noteq> CHR ''/''" r0] unfolding rest_def by simp
  with dne r have d: "rest = CHR ''/'' # r"
    by (metis hd_Cons_tl)
  have "r0 = nm @ rest" unfolding nm_def rest_def by simp
  with d q have "q = ''packages/'' @ nm @ ''/'' @ r" by simp
  moreover have "CHR ''/'' \<notin> set nm"
    unfolding nm_def by (auto dest: set_takeWhileD)
  ultimately show "\<exists>n. n \<noteq> [] \<and> CHR ''/'' \<notin> set n \<and> q = ''packages/'' @ n @ ''/'' @ r"
    using ne by blast
next
  assume "\<exists>n. n \<noteq> [] \<and> CHR ''/'' \<notin> set n \<and> q = ''packages/'' @ n @ ''/'' @ r"
  then obtain n where n: "n \<noteq> []" "CHR ''/'' \<notin> set n" "q = ''packages/'' @ n @ ''/'' @ r"
    by blast
  have tw: "takeWhile (\<lambda>c. c \<noteq> CHR ''/'') (n @ CHR ''/'' # r) = n"
    using n(2) by (simp add: takeWhile_append2 [where xs = n] takeWhile_append)
  have dw: "dropWhile (\<lambda>c. c \<noteq> CHR ''/'') (n @ CHR ''/'' # r) = CHR ''/'' # r"
    using n(2) by (simp add: dropWhile_append)
  show "afterPackageName q = Some r"
    using n(1) tw dw by (simp add: afterPackageName_def startsWith_def n(3))
qed

lemma valid_manifest_location_code:
  "valid_manifest_location q
     = (q = ''package.json'' \<or> isInPackagesDir q \<or> isInTestFixtures q)"
proof -
  have a: "isInPackagesDir q
      = (\<exists>n. n \<noteq> [] \<and> CHR ''/'' \<notin> set n \<and> q = ''packages/'' @ n @ ''/package.json'')"
    using afterPackageName_Some [of q "''package.json''"] by (simp add: isInPackagesDir_def)
  have b: "isInTestFixtures q
      = (\<exists>n rest. n \<noteq> [] \<and> CHR ''/'' \<notin> set n
             \<and> q = ''packages/'' @ n @ ''/test/fixtures/'' @ rest)" (is "?l = ?r")
  proof
    assume ?l
    then obtain r where r: "afterPackageName q = Some r" "startsWith r ''test/fixtures/''"
      by (auto simp: isInTestFixtures_def split: option.splits)
    from r(2) have "r = ''test/fixtures/'' @ drop (length ''test/fixtures/'') r"
      unfolding startsWith_def by (metis append_take_drop_id)
    then obtain rest where "r = ''test/fixtures/'' @ rest" ..
    with r(1) show ?r
      unfolding afterPackageName_Some by auto
  next
    assume ?r
    then obtain n rest where n: "n \<noteq> []" "CHR ''/'' \<notin> set n"
      "q = ''packages/'' @ n @ ''/'' @ (''test/fixtures/'' @ rest)"
      by auto
    then have "afterPackageName q = Some (''test/fixtures/'' @ rest)"
      unfolding afterPackageName_Some by blast
    then show ?l by (simp add: isInTestFixtures_def startsWith_def)
  qed
  show ?thesis unfolding valid_manifest_location_def a b ..
qed

text \<open>
  Claim C1. On a file named exactly \<^verbatim>\<open>package.json\<close> the rule appends nothing
  if and only if the normalized relative path is \<^verbatim>\<open>package.json\<close>, or
  \<^verbatim>\<open>packages/<name>/package.json\<close>, or lies under
  \<^verbatim>\<open>packages/<name>/test/fixtures/\<close>; at any other location it appends exactly one
  violation of type \<^verbatim>\<open>forbidden-directory\<close> and severity \<^verbatim>\<open>error\<close>. On a file
  of another name it appends nothing, and the rule as a whole appends what the callback
  gives on the files its walk visits.
\<close>

theorem nested_manifest_rule:
  "(name e = ''package.json'' \<longrightarrow>
     nestedPackageJson_onFile e sz errors =
       (if valid_manifest_location (normalizeSeparators (relPath e)) then errors
        else errors @
          [\<lparr>type = FORBIDDEN_DIRECTORY, path = relPath e,
            message = ''Nested package.json detected. Only root, packages/*/, and test/fixtures/ can have package.json files.'',
            severity = Error\<rparr>]))
   \<and> (name e \<noteq> ''package.json'' \<longrightarrow> nestedPackageJson_onFile e sz errors = errors)
   \<and> validateNoNestedPackageJson h errors =
       (Returned,
        errors @ concat (map (\<lambda>ev. case ev of DirEvent d \<Rightarrow> []
                                    | FileEvent f fsz \<Rightarrow> nestedPackageJson_onFile f fsz [])
          (walk_trace (platform h) (readdir (Some (rootNode h))) (REPO_ROOT h) ''.''
             (Some {''node_modules'', ''dist'', ''.git'', ''.worktrees''}))))"
proof (intro conjI)
  let ?S = "{''node_modules'', ''dist'', ''.git'', ''.worktrees''}"
  let ?o = "\<lparr>skipDirs = Some ?S, onDirectory = None,
         onFile = Some nestedPackageJson_onFile\<rparr>"
  have app: "apply_event ?o s ev = s @ apply_event ?o [] ev" for s ev
    by (cases ev) (simp_all add: nestedPackageJson_onFile_def Let_def)
  have ev: "apply_event ?o [] = (\<lambda>ev. case ev of DirEvent d \<Rightarrow> []
                                    | FileEvent f fsz \<Rightarrow> nestedPackageJson_onFile f fsz [])"
    by (rule ext) (simp split: event.splits)
  have sk: "COMMON_SKIP_DIRS \<union> {WORKTREES_DIR} = ?S"
    by (auto simp add: COMMON_SKIP_DIRS_def WORKTREES_DIR_def)
  have walk: "walkDirectory p l d r ?o errors
      = errors @ concat (map (apply_event ?o []) (walk_trace p l d r (Some ?S)))" for p l d r
    using walk_appending [of ?o, OF app, of p l d r errors] by simp
  show "validateNoNestedPackageJson h errors =
       (Returned,
        errors @ concat (map (\<lambda>ev. case ev of DirEvent d \<Rightarrow> []
                                    | FileEvent f fsz \<Rightarrow> nestedPackageJson_onFile f fsz [])
          (walk_trace (platform h) (readdir (Some (rootNode h))) (REPO_ROOT h) ''.''
             (Some {''node_modules'', ''dist'', ''.git'', ''.worktrees''}))))"
    unfolding validateNoNestedPackageJson_def sk walk ev ..
qed (simp_all add: nestedPackageJson_onFile_def valid_manifest_location_code)

theorem nested_manifest_rule_witness:
  "nestedPackageJson_onFile
      \<lparr>name = ''package.json'', fullPath = ''/repo/packages/foo/package.json'',
       relPath = ''packages/foo/package.json''\<rparr> 10 [] = []
   \<and> nestedPackageJson_onFile
      \<lparr>name = ''package.json'', fullPath = ''/repo/packages/foo/src/package.json'',
       relPath = ''packages/foo/src/package.json''\<rparr> 10 []
     = [\<lparr>type = FORBIDDEN_DIRECTORY, path = ''packages/foo/src/package.json'',
         message = ''Nested package.json detected. Only root, packages/*/, and test/fixtures/ can have package.json files.'',
         severity = Error\<rparr>]
   \<and> nestedPackageJson_onFile
      \<lparr>name = ''package.json'', fullPath = ''/repo/packages/foo/test/fixtures/a/b/package.json'',
       relPath = ''packages/foo/test/fixtures/a/b/package.json''\<rparr> 10 [] = []
   \<and> nestedPackageJson_onFile
      \<lparr>name = ''package.json'', fullPath = ''/repo/package.json'',
       relPath = ''package.json''\<rparr> 10 [] = []
   \<and> nestedPackageJson_onFile
      \<lparr>name = ''tsconfig.json'', fullPath = ''/repo/packages/foo/src/tsconfig.json'',
       relPath = ''packages/foo/src/tsconfig.json''\<rparr> 10 [] = []"
  using nested_manifest_rule
      [of "\<lparr>name = ''package.json'', fullPath = ''/repo/packages/foo/package.json'',
           relPath = ''packages/foo/package.json''\<rparr>" 10 "[]"]
    nested_manifest_rule
      [of "\<lparr>name = ''package.json'', fullPath = ''/repo/packages/foo/src/package.json'',
           relPath = ''packages/foo/src/package.json''\<rparr>" 10 "[]"]
    nested_manifest_rule
      [of "\<lparr>name = ''package.json'', fullPath = ''/repo/packages/foo/test/fixtures/a/b/package.json'',
           relPath = ''packages/foo/test/fixtures/a/b/package.json''\<rparr>" 10 "[]"]
    nested_manifest_rule
      [of "\<lparr>name = ''package.json'', fullPath = ''/repo/package.json'',
           relPath = ''package.json''\<rparr>" 10 "[]"]
    nested_manifest_rule
      [of "\<lparr>name = ''tsconfig.json'', fullPath = ''/repo/packages/foo/src/tsconfig.json'',
           relPath = ''packages/foo/src/tsconfig.json''\<rparr>" 10 "[]"]
  by (simp add: valid_manifest_location_code isInPackagesDir_def isInTestFixtures_def
      afterPackageName_def startsWith_def normalizeSeparators_def backslash_def)

section \<open>The test-file naming rule\<close>

lemma endsWith_suffix: "endsWith s t \<longleftrightarrow> suffix t s"
proof
  assume "endsWith s t"
  then have "s = take (length s - length t) s @ t"
    unfolding endsWith_def by (metis append_take_drop_id)
  then show "suffix t s" by (rule suffixI)
next
  assume "suffix t s"
  then obtain zs where "s = zs @ t" by (rule suffixE)
  then show "endsWith s t" by (simp add: endsWith_def)
qed

lemma endsWith_appendD: "endsWith s (a @ b) \<Longrightarrow> endsWith s b"
  unfolding endsWith_suffix by (rule suffix_appendD)

lemma endsWith_same_length:
  "endsWith s a \<Longrightarrow> endsWith s b \<Longrightarrow> length a = length b \<Longrightarrow> a = b"
  by (simp add: endsWith_def)

lemma spec_not_test: "endsWith n ''.spec.ts'' \<Longrightarrow> \<not> endsWith n ''.test.ts''"
  using endsWith_same_length [of n "''.spec.ts''" "''.test.ts''"] by auto

lemma integration_is_test: "endsWith n ''.integration.test.ts'' \<Longrightarrow> endsWith n ''.test.ts''"
  using endsWith_appendD [of n "''.integration''" "''.test.ts''"] by simp

lemma system_is_test: "endsWith n ''.system.test.ts'' \<Longrightarrow> endsWith n ''.test.ts''"
  using endsWith_appendD [of n "''.system''" "''.test.ts''"] by simp

lemma integration_not_system:
  "endsWith n ''.integration.test.ts'' \<Longrightarrow> \<not> endsWith n ''.system.test.ts''"
  using endsWith_appendD [of n "''.integrat''" "''ion.test.ts''"]
    endsWith_appendD [of n "''.sys''" "''tem.test.ts''"]
    endsWith_same_length [of n "''ion.test.ts''" "''tem.test.ts''"]
  by auto

lemma triggers_simps:
  "triggers check_spec_suffix e = endsWith (name e) ''.spec.ts''"
  "triggers check_integration_location e =
     (endsWith (name e) ''.integration.test.ts''
      \<and> \<not> includes_str (normalizeSeparators (relPath e)) ''/test/integration/'')"
  "triggers check_system_location e =
     (endsWith (name e) ''.system.test.ts''
      \<and> \<not> includes_str (normalizeSeparators (relPath e)) ''/test/system/'')"
  "triggers check_unit_in_special_dir e =
     (endsWith (name e) ''.test.ts''
         \<and> \<not> endsWith (name e) ''.integration.test.ts''
         \<and> \<not> endsWith (name e) ''.system.test.ts''
         \<and> (includes_str (normalizeSeparators (relPath e)) ''/test/integration/''
              \<or> includes_str (normalizeSeparators (relPath e)) ''/test/system/''))"
  by (simp_all add: triggers_def check_spec_suffix_def check_integration_location_def
      check_system_location_def check_unit_in_special_dir_def)

lemma at_most_one_trigger:
  "\<not> (triggers check_spec_suffix e \<and> triggers check_integration_location e)"
  "\<not> (triggers check_spec_suffix e \<and> triggers check_system_location e)"
  "\<not> (triggers check_spec_suffix e \<and> triggers check_unit_in_special_dir e)"
  "\<not> (triggers check_integration_location e \<and> triggers check_system_location e)"
  "\<not> (triggers check_integration_location e \<and> triggers check_unit_in_special_dir e)"
  "\<not> (triggers check_system_location e \<and> triggers check_unit_in_special_dir e)"
  using spec_not_test [of "name e"] integration_is_test [of "name e"]
    system_is_test [of "name e"] integration_not_system [of "name e"]
  by (auto simp: triggers_simps)

text \<open>
  Claim C4, as stated, asks for a file that triggers more than one of the four checks.
  There is none: the four conditions on the file name exclude one another. A name
  ending in \<^verbatim>\<open>.spec.ts\<close> does not end in \<^verbatim>\<open>.test.ts\<close>; no name ends in both
  \<^verbatim>\<open>.integration.test.ts\<close> and \<^verbatim>\<open>.system.test.ts\<close>; the fourth check excludes
  both suffixes explicitly.
\<close>

theorem no_file_triggers_two_naming_checks:
  "\<not> (\<exists>e. (triggers check_spec_suffix e \<and> triggers check_integration_location e)
         \<or> (triggers check_spec_suffix e \<and> triggers check_system_location e)
         \<or> (triggers check_spec_suffix e \<and> triggers check_unit_in_special_dir e)
         \<or> (triggers check_integration_location e \<and> triggers check_system_location e)
         \<or> (triggers check_integration_location e \<and> triggers check_unit_in_special_dir e)
         \<or> (triggers check_system_location e \<and> triggers check_unit_in_special_dir e))"
  using at_most_one_trigger by blast

lemma check_appends:
  "check_spec_suffix e s = s @ check_spec_suffix e []"
  "check_integration_location e s = s @ check_integration_location e []"
  "check_system_location e s = s @ check_system_location e []"
  "check_unit_in_special_dir e s = s @ check_unit_in_special_dir e []"
  by (simp_all add: check_spec_suffix_def check_integration_location_def
      check_system_location_def check_unit_in_special_dir_def)

lemma check_length:
  "length (check_spec_suffix e []) = (if triggers check_spec_suffix e then 1 else 0)"
  "length (check_integration_location e []) = (if triggers check_integration_location e then 1 else 0)"
  "length (check_system_location e []) = (if triggers check_system_location e then 1 else 0)"
  "length (check_unit_in_special_dir e []) = (if triggers check_unit_in_special_dir e then 1 else 0)"
  by (simp_all add: triggers_def check_spec_suffix_def check_integration_location_def
      check_system_location_def check_unit_in_special_dir_def)

text \<open>
  Claim C4, amended. The four checks are separate statements run one after the other,
  none of which stops another: the callback appends what each check gives on its own.
  Their conditions are pairwise exclusive, so a file gets at most one violation from
  this rule.
\<close>

theorem naming_checks_at_most_one:
  "testFileNaming_onFile e sz errors
     = errors @ check_spec_suffix e [] @ check_integration_location e []
         @ check_system_location e [] @ check_unit_in_special_dir e []
   \<and> length (testFileNaming_onFile e sz errors) \<le> length errors + 1
   \<and> \<not> (triggers check_spec_suffix e \<and> triggers check_integration_location e)
   \<and> \<not> (triggers check_spec_suffix e \<and> triggers check_system_location e)
   \<and> \<not> (triggers check_spec_suffix e \<and> triggers check_unit_in_special_dir e)
   \<and> \<not> (triggers check_integration_location e \<and> triggers check_system_location e)
   \<and> \<not> (triggers check_integration_location e \<and> triggers check_unit_in_special_dir e)
   \<and> \<not> (triggers check_system_location e \<and> triggers check_unit_in_special_dir e)"
proof -
  have eq: "testFileNaming_onFile e sz errors
     = errors @ check_spec_suffix e [] @ check_integration_location e []
         @ check_system_location e [] @ check_unit_in_special_dir e []"
    unfolding testFileNaming_onFile_def
    by (subst check_appends(4), subst check_appends(3), subst check_appends(2),
        subst check_appends(1)) simp
  have "length (testFileNaming_onFile e sz errors) \<le> length errors + 1"
    unfolding eq using at_most_one_trigger [of e] by (auto simp: check_length)
  with eq show ?thesis using at_most_one_trigger [of e] by blast
qed

theorem naming_checks_at_most_one_witness:
  "testFileNaming_onFile
     \<lparr>name = ''bar.spec.ts'', fullPath = ''/repo/packages/foo/test/bar.spec.ts'',
      relPath = ''packages/foo/test/bar.spec.ts''\<rparr> 1 []
     = [\<lparr>type = STRUCTURAL_VIOLATION, path = ''packages/foo/test/bar.spec.ts'',
         message = ''Use .test.ts instead of .spec.ts for consistency.'', severity = Error\<rparr>]
   \<and> testFileNaming_onFile
     \<lparr>name = ''bar.integration.test.ts'',
      fullPath = ''/repo/packages/foo/test/integration/bar.integration.test.ts'',
      relPath = ''packages/foo/test/integration/bar.integration.test.ts''\<rparr> 1 [] = []
   \<and> testFileNaming_onFile
     \<lparr>name = ''bar.integration.test.ts'',
      fullPath = ''/repo/packages/foo/test/bar.integration.test.ts'',
      relPath = ''packages/foo/test/bar.integration.test.ts''\<rparr> 1 []
     = [\<lparr>type = STRUCTURAL_VIOLATION, path = ''packages/foo/test/bar.integration.test.ts'',
         message = ''Integration tests must be in test/integration/ directory.'',
         severity = Error\<rparr>]"
  using naming_checks_at_most_one
    [of "\<lparr>name = ''bar.spec.ts'', fullPath = ''/repo/packages/foo/test/bar.spec.ts'',
      relPath = ''packages/foo/test/bar.spec.ts''\<rparr>" 1 "[]"]
    naming_checks_at_most_one
    [of "\<lparr>name = ''bar.integration.test.ts'',
      fullPath = ''/repo/packages/foo/test/integration/bar.integration.test.ts'',
      relPath = ''packages/foo/test/integration/bar.integration.test.ts''\<rparr>" 1 "[]"]
    naming_checks_at_most_one
    [of "\<lparr>name = ''bar.integration.test.ts'',
      fullPath = ''/repo/packages/foo/test/bar.integration.test.ts'',
      relPath = ''packages/foo/test/bar.integration.test.ts''\<rparr>" 1 "[]"]
  by (simp add: check_spec_suffix_def check_integration_location_def
      check_system_location_def check_unit_in_special_dir_def endsWith_def startsWith_def
      normalizeSeparators_def backslash_def)

section \<open>Skipped directories\<close>

lemma prune_node_props [simp]:
  "isDirectory (prune_node S e) = isDirectory e"
  "isFile (prune_node S e) = isFile e"
  "node_name (prune_node S e) = node_name e"
  "stat_size (prune_node S e) = stat_size e"
  by (cases e; simp)+

lemma skipped_prune_node [simp]: "skipped sk (prune_node S e) = skipped sk e"
  by (cases sk) (simp_all add: skipped_def)

lemma readdir_prune_node:
  "isDirectory e \<Longrightarrow> readdir (Some (prune_node S e)) = map_option (prune_list S) (readdir (Some e))"
  by (cases e) (simp_all add: readdir_def)

lemma walk_prune:
  assumes sk: "skipDirs opts = Some S"
  shows "\<forall>s. walkDirectory p (map_option (prune_list S) l) dir rel opts s
            = walkDirectory p l dir rel opts s"
    and "\<forall>s. walkEntries p (prune_list S es) dir rel opts s = walkEntries p es dir rel opts s"
proof (induction l dir rel and es dir rel rule: walk_induct)
  case (None dir rel)
  show ?case by simp
next
  case (Some es dir rel)
  then show ?case by simp
next
  case (Nil dir rel)
  show ?case by simp
next
  case (Cons e rest dir rel)
  show ?case
  proof (cases "isDirectory e \<and> node_name e \<in> S")
    case True
    then show ?thesis
      using Cons(2) sk by (simp add: walkEntries_Cons visitEntry_def skipped_def)
  next
    case False
    then have pl: "prune_list S (e # rest) = prune_node S e # prune_list S rest"
      by simp
    have "visitEntry p (prune_node S e) dir rel opts s = visitEntry p e dir rel opts s" for s
      using Cons(1) by (simp add: visitEntry_def entry_of_def readdir_prune_node)
    then show ?thesis
      using Cons(2) False by (auto simp add: walkEntries_Cons)
  qed
qed

lemma chain_ok_step:
  "n \<notin> S \<Longrightarrow> chain_ok p S (path_join p rel n) ev \<Longrightarrow> chain_ok p S rel ev"
  unfolding chain_ok_def
proof (elim exE conjE)
  fix anc
  assume "n \<notin> S" "set anc \<inter> S = {}"
    "relPath (event_entry ev) = foldl (path_join p) (path_join p rel n) (anc @ [name (event_entry ev)])"
  then have "set (n # anc) \<inter> S = {}
      \<and> relPath (event_entry ev) = foldl (path_join p) rel ((n # anc) @ [name (event_entry ev)])"
    by simp
  then show "\<exists>anc. set anc \<inter> S = {}
        \<and> relPath (event_entry ev) = foldl (path_join p) rel (anc @ [name (event_entry ev)])" ..
qed

lemma chain_ok_here:
  "chain_ok p S rel (DirEvent (entry_of p dir rel e))"
  "chain_ok p S rel (FileEvent (entry_of p dir rel e) sz)"
  unfolding chain_ok_def by (rule exI [of _ "[]"], simp add: entry_of_def)+

lemma entry_of_simps [simp]:
  "name (entry_of p dir rel e) = node_name e"
  "fullPath (entry_of p dir rel e) = path_join p dir (node_name e)"
  "relPath (entry_of p dir rel e) = path_join p rel (node_name e)"
  by (simp_all add: entry_of_def)

lemma trace_skip:
  "\<forall>ev\<in>set (walk_trace p l dir rel (Some S)).
      (\<forall>d. ev = DirEvent d \<longrightarrow> name d \<notin> S) \<and> chain_ok p S rel ev"
  "\<forall>ev\<in>set (entries_trace p es dir rel (Some S)).
      (\<forall>d. ev = DirEvent d \<longrightarrow> name d \<notin> S) \<and> chain_ok p S rel ev"
proof (induction l dir rel and es dir rel rule: walk_induct)
  case (None dir rel)
  show ?case by (simp add: walk_trace_simps)
next
  case (Some es dir rel)
  then show ?case by (simp add: walk_trace_simps)
next
  case (Nil dir rel)
  show ?case by (simp add: walk_trace_simps)
next
  case (Cons e rest dir rel)
  show ?case
    using Cons(1) Cons(2)
    by (auto simp add: walk_trace_simps skipped_def chain_ok_here
        intro: chain_ok_step [where n = "node_name e"])
qed


text \<open>
  Claim C5. With \<open>skipDirs = S\<close>: no directory callback is made for a directory
  whose name is in \<open>S\<close>; every callback is for an entry reached from the start through
  directories whose names are all outside \<open>S\<close>, where the callbacks of a walk are
  applied exactly along its trace; the loop passes over a directory
  named in \<open>S\<close> without any effect; and the whole walk is the walk of the tree from
  which these directories and all beneath them have been removed. The directories
  meant are those the walk meets; the start directory itself is not an entry of it.
\<close>

theorem skipDirs_subtrees_pruned:
  "(\<forall>ev\<in>set (walk_trace p l dir rel (Some S)).
       (\<forall>d. ev = DirEvent d \<longrightarrow> name d \<notin> S) \<and> chain_ok p S rel ev)
   \<and> walkDirectory p l dir rel options s
       = foldl (apply_event options) s (walk_trace p l dir rel (skipDirs options))
   \<and> (skipDirs options = Some S \<longrightarrow>
        walkDirectory p (map_option (prune_list S) l) dir rel options s
          = walkDirectory p l dir rel options s
        \<and> (isDirectory e \<and> node_name e \<in> S \<longrightarrow>
             walkEntries p (e # rest) dir rel options s = walkEntries p rest dir rel options s))"
proof (intro conjI impI)
  show "\<forall>ev\<in>set (walk_trace p l dir rel (Some S)).
       (\<forall>d. ev = DirEvent d \<longrightarrow> name d \<notin> S) \<and> chain_ok p S rel ev"
    by (rule trace_skip(1))
next
  show "walkDirectory p l dir rel options s
       = foldl (apply_event options) s (walk_trace p l dir rel (skipDirs options))"
    by (rule walk_fusion(1) [THEN spec])
next
  assume "skipDirs options = Some S"
  then show "walkDirectory p (map_option (prune_list S) l) dir rel options s
          = walkDirectory p l dir rel options s"
    by (rule walk_prune(1) [THEN spec])
next
  assume "skipDirs options = Some S" "isDirectory e \<and> node_name e \<in> S"
  then show "walkEntries p (e # rest) dir rel options s = walkEntries p rest dir rel options s"
    by (simp add: walkEntries_Cons visitEntry_def skipped_def)
qed

theorem skipDirs_subtrees_pruned_witness:
  "walk_trace Posix (Some example_tree) ''/repo'' ''.'' (Some {''dist''})
     = [DirEvent \<lparr>name = ''src'', fullPath = ''/repo/src'', relPath = ''src''\<rparr>,
        FileEvent \<lparr>name = ''c.ts'', fullPath = ''/repo/src/c.ts'', relPath = ''src/c.ts''\<rparr> 7,
        FileEvent \<lparr>name = ''dist'', fullPath = ''/repo/dist'', relPath = ''dist''\<rparr> 5]
   \<and> chain_ok Posix {''dist''} ''.''
        (FileEvent \<lparr>name = ''c.ts'', fullPath = ''/repo/src/c.ts'', relPath = ''src/c.ts''\<rparr> 7)
   \<and> prune_list {''dist''} example_tree = [DirN ''src'' True [FileN ''c.ts'' 7], FileN ''dist'' 5]
   \<and> walk_trace Posix (Some (prune_list {''dist''} example_tree)) ''/repo'' ''.'' (Some {''dist''})
     = walk_trace Posix (Some example_tree) ''/repo'' ''.'' (Some {''dist''})
   \<and> isDirectory (hd example_tree) \<and> node_name (hd example_tree) \<in> {''dist''}
   \<and> entries_trace Posix (hd example_tree # tl example_tree) ''/repo'' ''.'' (Some {''dist''})
     = entries_trace Posix (tl example_tree) ''/repo'' ''.'' (Some {''dist''})"
proof -
  have tr: "walk_trace Posix (Some example_tree) ''/repo'' ''.'' (Some {''dist''})
     = [DirEvent \<lparr>name = ''src'', fullPath = ''/repo/src'', relPath = ''src''\<rparr>,
        FileEvent \<lparr>name = ''c.ts'', fullPath = ''/repo/src/c.ts'', relPath = ''src/c.ts''\<rparr> 7,
        FileEvent \<lparr>name = ''dist'', fullPath = ''/repo/dist'', relPath = ''dist''\<rparr> 5]"
    by (simp add: example_tree_def walk_trace_simps skipped_def entry_of_def path_join_def
        readdir_def)
  have pr: "prune_list {''dist''} example_tree = [DirN ''src'' True [FileN ''c.ts'' 7], FileN ''dist'' 5]"
    by (simp add: example_tree_def)
  have tr': "walk_trace Posix (Some [DirN ''src'' True [FileN ''c.ts'' 7], FileN ''dist'' 5])
       ''/repo'' ''.'' (Some {''dist''})
     = [DirEvent \<lparr>name = ''src'', fullPath = ''/repo/src'', relPath = ''src''\<rparr>,
        FileEvent \<lparr>name = ''c.ts'', fullPath = ''/repo/src/c.ts'', relPath = ''src/c.ts''\<rparr> 7,
        FileEvent \<lparr>name = ''dist'', fullPath = ''/repo/dist'', relPath = ''dist''\<rparr> 5]"
    by (simp add: walk_trace_simps skipped_def entry_of_def path_join_def readdir_def)
  have hd: "isDirectory (hd example_tree) \<and> node_name (hd example_tree) \<in> {''dist''}"
    by (simp add: example_tree_def)
  from skipDirs_subtrees_pruned
    [of Posix "Some example_tree" "''/repo''" "''.''" "{''dist''}" "recorder (Some {''dist''})" "[]"
        "hd example_tree" "tl example_tree"]
  show ?thesis
    using hd by (simp add: tr tr' pr entries_trace_def)
qed

section \<open>Entries that are neither directories nor files\<close>

lemma strip_node_props [simp]:
  "isDirectory (strip_node e) = isDirectory e"
  "isFile (strip_node e) = isFile e"
  "node_name (strip_node e) = node_name e"
  "stat_size (strip_node e) = stat_size e"
  by (cases e; simp)+

lemma skipped_strip_node [simp]: "skipped sk (strip_node e) = skipped sk e"
  by (cases sk) (simp_all add: skipped_def)

lemma readdir_strip_node:
  "isDirectory e \<Longrightarrow> readdir (Some (strip_node e)) = map_option strip_list (readdir (Some e))"
  by (cases e) (simp_all add: readdir_def)

lemma walk_strip:
  "\<forall>s. walkDirectory p (map_option strip_list l) dir rel opts s
            = walkDirectory p l dir rel opts s"
  "\<forall>s. walkEntries p (strip_list es) dir rel opts s = walkEntries p es dir rel opts s"
proof (induction l dir rel and es dir rel rule: walk_induct)
  case (None dir rel)
  show ?case by simp
next
  case (Some es dir rel)
  then show ?case by simp
next
  case (Nil dir rel)
  show ?case by simp
next
  case (Cons e rest dir rel)
  show ?case
  proof (cases "isDirectory e \<or> isFile e")
    case True
    then have sl: "strip_list (e # rest) = strip_node e # strip_list rest"
      by simp
    have "visitEntry p (strip_node e) dir rel opts s = visitEntry p e dir rel opts s" for s
      using Cons(1) by (simp add: visitEntry_def entry_of_def readdir_strip_node)
    then show ?thesis
      using Cons(2) True by (auto simp add: walkEntries_Cons)
  next
    case False
    then show ?thesis
      using Cons(2) by (simp add: walkEntries_Cons visitEntry_def)
  qed
qed

text \<open>
  Claim C10, as stated, ends with: no rule can emit a violation for an entry that is
  neither a directory nor a regular file. The rule on \<^verbatim>\<open>/scripts\<close> (and likewise
  the one on \<^verbatim>\<open>/examples\<close>) does not walk: it asks \<^verbatim>\<open>existsSync\<close>, which is
  true for an entry of any kind. Here \<^verbatim>\<open>packages/foo/scripts\<close> is a symbolic link
  and is reported.
\<close>

theorem scripts_rule_flags_symlink:
  "lookup (Some (DirN ''foo'' True [SymlinkN ''scripts'' (Some (DirN ''tools'' True []))])) ''scripts''
     = Some (SymlinkN ''scripts'' (Some (DirN ''tools'' True [])))
   \<and> \<not> isDirectory (SymlinkN ''scripts'' (Some (DirN ''tools'' True [])))
   \<and> \<not> isFile (SymlinkN ''scripts'' (Some (DirN ''tools'' True [])))
   \<and> validateScriptsLocation
       \<lparr>platform = Posix, REPO_ROOT = ''/repo'',
        rootNode = DirN ''repo'' True
          [DirN ''packages'' True
             [DirN ''foo'' True [SymlinkN ''scripts'' (Some (DirN ''tools'' True []))]]]\<rparr>
       emptyConfig []
     = (Returned,
        [\<lparr>type = FORBIDDEN_DIRECTORY, path = ''packages/foo/scripts/'',
          message = ''Only packages in allowedScriptsPackages may have /scripts directories. Move utilities to dev-tools package.'',
          severity = Error\<rparr>])"
  by (simp add: validateScriptsLocation_def packagesNode_def lookup_def readdir_def
      emptyConfig_def scripts_check_def existsSync_def)

text \<open>
  Claim C10, amended to the rules that work through \<open>walkDirectory\<close>. The loop
  passes over an entry that is neither a directory nor a regular file without a
  callback and without descending, and the walk, for any callbacks, is the walk of the
  tree from which all such entries have been removed. So nothing a walk-based rule
  emits comes from such an entry.
\<close>

theorem walk_ignores_other_entries:
  "(\<not> isDirectory e \<and> \<not> isFile e \<longrightarrow>
      walkEntries p (e # rest) dir rel options s = walkEntries p rest dir rel options s)
   \<and> walkDirectory p (map_option strip_list l) dir rel options s
       = walkDirectory p l dir rel options s
   \<and> walk_trace p (map_option strip_list l) dir rel sk = walk_trace p l dir rel sk"
proof (intro conjI impI)
  assume "\<not> isDirectory e \<and> \<not> isFile e"
  then show "walkEntries p (e # rest) dir rel options s = walkEntries p rest dir rel options s"
    by (simp add: walkEntries_Cons visitEntry_def)
next
  show "walkDirectory p (map_option strip_list l) dir rel options s
       = walkDirectory p l dir rel options s"
    by (rule walk_strip(1) [THEN spec])
next
  show "walk_trace p (map_option strip_list l) dir rel sk = walk_trace p l dir rel sk"
    unfolding walk_trace_def by (rule walk_strip(1) [THEN spec])
qed

theorem walk_ignores_other_entries_witness:
  "\<not> isDirectory (SymlinkN ''link'' (Some (DirN ''t'' True [FileN ''x.sh'' 1])))
   \<and> \<not> isFile (SymlinkN ''link'' (Some (DirN ''t'' True [FileN ''x.sh'' 1])))
   \<and> walkEntries Posix
        [SymlinkN ''link'' (Some (DirN ''t'' True [FileN ''x.sh'' 1])), SpecialN ''sock.sh'',
         FileN ''y.sh'' 1]
        ''/repo'' ''.''
        \<lparr>skipDirs = Some SKIP_DIRS_WITH_HUSKY, onDirectory = None,
         onFile = Some noShellScripts_onFile\<rparr> []
     = [\<lparr>type = FORBIDDEN_DIRECTORY, path = ''y.sh'',
         message = ''Shell scripts are forbidden. Use TypeScript for cross-platform automation (packages/dev-tools/src/).'',
         severity = Error\<rparr>]
   \<and> strip_list
        [SymlinkN ''link'' (Some (DirN ''t'' True [FileN ''x.sh'' 1])), SpecialN ''sock.sh'',
         FileN ''y.sh'' 1] = [FileN ''y.sh'' 1]"
  using walk_ignores_other_entries
    [of "SymlinkN ''link'' (Some (DirN ''t'' True [FileN ''x.sh'' 1]))" Posix
        "[SpecialN ''sock.sh'', FileN ''y.sh'' 1]" "''/repo''" "''.''"
        "\<lparr>skipDirs = Some SKIP_DIRS_WITH_HUSKY, onDirectory = None,
         onFile = Some noShellScripts_onFile\<rparr>" "[]" None None]
  by (simp add: walkEntries.simps(2) noShellScripts_onFile_def extension_def lastIndexOf_def
      substring_def toLowerCase_def toLowerChar_def FORBIDDEN_EXTENSIONS_def path_join_def)

section \<open>Every rule only appends\<close>

lemma andThen_assoc: "andThen (andThen f g) k = andThen f (andThen g k)"
  by (rule ext) (simp add: andThen_def split: prod.splits outcome.splits)

lemma validate_runRules: "validate h config = andThen (runRules h config) exitIfErrors"
  by (simp only: validate_def runRules_def andThen_assoc)

lemma rule_okI:
  assumes "\<And>errors. r errors = (out, errors @ vs)" and "list_all severity_matches_type vs"
  shows "rule_ok r"
proof -
  have "r [] = (out, vs)" using assms(1) [of "[]"] by simp
  then show ?thesis using assms by (simp add: rule_ok_def)
qed

lemma rule_okD:
  assumes "rule_ok r"
  shows "r errors = (fst (r []), errors @ snd (r []))"
    and "list_all severity_matches_type (snd (r []))"
proof -
  from assms have a: "\<forall>errors. r errors = (fst (r []), errors @ snd (r []))"
    unfolding rule_ok_def by (rule conjunct1)
  show "r errors = (fst (r []), errors @ snd (r []))"
    using a by (rule spec)
  show "list_all severity_matches_type (snd (r []))"
    using assms unfolding rule_ok_def by (rule conjunct2)
qed

lemma rule_ok_andThen:
  assumes f: "rule_ok f" and g: "rule_ok g"
  shows "rule_ok (andThen f g)"
proof (cases "fst (f []) = Returned")
  case True
  have "andThen f g errors = (fst (g []), errors @ (snd (f []) @ snd (g [])))" for errors
    using rule_okD(1) [OF f, of errors] rule_okD(1) [OF g, of "errors @ snd (f [])"] True
    by (simp add: andThen_def)
  moreover have "list_all severity_matches_type (snd (f []) @ snd (g []))"
    using rule_okD(2) [OF f] rule_okD(2) [OF g] by simp
  ultimately show ?thesis by (rule rule_okI)
next
  case False
  have "andThen f g errors = (fst (f []), errors @ snd (f []))" for errors
    using rule_okD(1) [OF f, of errors] False
    by (simp add: andThen_def split: outcome.splits)
  then show ?thesis using rule_okD(2) [OF f] by (rule rule_okI)
qed

lemma fold_appending:
  assumes "\<And>x s. f x s = s @ f x []"
  shows "fold f xs s = s @ concat (map (\<lambda>x. f x []) xs)"
proof (induction xs arbitrary: s)
  case Nil
  show ?case by simp
next
  case (Cons x xs)
  have "fold f (x # xs) s = fold f xs (f x s)" by simp
  also have "\<dots> = f x s @ concat (map (\<lambda>x. f x []) xs)" by (rule Cons.IH)
  also have "\<dots> = s @ f x [] @ concat (map (\<lambda>x. f x []) xs)"
    using assms [of x s] by simp
  finally show ?case by simp
qed

lemma list_all_concat_map:
  "(\<And>x. list_all P (f x)) \<Longrightarrow> list_all P (concat (map f xs))"
  by (induction xs) simp_all

lemma rule_ok_walk:
  assumes app: "\<And>s ev. apply_event opts s ev = s @ apply_event opts [] ev"
    and ok: "\<And>ev. list_all severity_matches_type (apply_event opts [] ev)"
  shows "rule_ok (\<lambda>errors. (Returned, walkDirectory p l dir rel opts errors))"
proof (rule rule_okI)
  show "(Returned, walkDirectory p l dir rel opts errors)
      = (Returned, errors @ concat (map (apply_event opts []) (walk_trace p l dir rel (skipDirs opts))))"
    for errors
    using walk_appending [of opts, OF app] by simp
  show "list_all severity_matches_type
      (concat (map (apply_event opts []) (walk_trace p l dir rel (skipDirs opts))))"
    using ok by (rule list_all_concat_map)
qed

lemma callbacks_append:
  "nestedPackageJson_onFile e sz s = s @ nestedPackageJson_onFile e sz []"
  "sourceFileLocations_onFile config e sz s = s @ sourceFileLocations_onFile config e sz []"
  "testFileNaming_onFile e sz s = s @ testFileNaming_onFile e sz []"
  "noShellScripts_onFile e sz s = s @ noShellScripts_onFile e sz []"
  "noStaging_onDirectory e s = s @ noStaging_onDirectory e []"
  "fixtureSizes_onFile e sz s = s @ fixtureSizes_onFile e sz []"
  "examples_check pats n s = s @ examples_check pats n []"
  "scripts_check allowed n s = s @ scripts_check allowed n []"
  by (auto simp add: nestedPackageJson_onFile_def sourceFileLocations_onFile_def
      testFileNaming_onFile_def check_spec_suffix_def check_integration_location_def
      check_system_location_def check_unit_in_special_dir_def noShellScripts_onFile_def
      noStaging_onDirectory_def fixtureSizes_onFile_def examples_check_def scripts_check_def
      Let_def)

lemma callbacks_ok:
  "list_all severity_matches_type (nestedPackageJson_onFile e sz [])"
  "list_all severity_matches_type (sourceFileLocations_onFile config e sz [])"
  "list_all severity_matches_type (testFileNaming_onFile e sz [])"
  "list_all severity_matches_type (noShellScripts_onFile e sz [])"
  "list_all severity_matches_type (noStaging_onDirectory e [])"
  "list_all severity_matches_type (fixtureSizes_onFile e sz [])"
  "list_all severity_matches_type (examples_check pats n [])"
  "list_all severity_matches_type (scripts_check allowed n [])"
  by (auto simp add: nestedPackageJson_onFile_def sourceFileLocations_onFile_def
      testFileNaming_onFile_def check_spec_suffix_def check_integration_location_def
      check_system_location_def check_unit_in_special_dir_def noShellScripts_onFile_def
      noStaging_onDirectory_def fixtureSizes_onFile_def examples_check_def scripts_check_def
      Let_def severity_matches_type_def)


lemma rule_ok_fold:
  assumes app: "\<And>x s. f x s = s @ f x []"
    and ok: "\<And>x. list_all severity_matches_type (f x [])"
  shows "rule_ok (\<lambda>errors. (out, fold f xs errors))"
proof (rule rule_okI)
  show "(out, fold f xs errors) = (out, errors @ concat (map (\<lambda>x. f x []) xs))" for errors
    using fold_appending [of f, OF app] by simp
  show "list_all severity_matches_type (concat (map (\<lambda>x. f x []) xs))"
    using ok by (rule list_all_concat_map)
qed

lemma rule_ok_const: "rule_ok (\<lambda>errors. (out, errors))"
  by (rule rule_okI [where vs = "[]"]) simp_all

lemma rule_ok_nested: "rule_ok (validateNoNestedPackageJson h)"
proof -
  let ?o = "\<lparr>skipDirs = Some (COMMON_SKIP_DIRS \<union> {WORKTREES_DIR}), onDirectory = None,
         onFile = Some nestedPackageJson_onFile\<rparr>"
  have "apply_event ?o s ev = s @ apply_event ?o [] ev" for s ev
    by (cases ev) (simp_all add: callbacks_append(1) [of _ _ s])
  moreover have "list_all severity_matches_type (apply_event ?o [] ev)" for ev
    by (cases ev) (simp_all add: callbacks_ok)
  ultimately have "rule_ok (\<lambda>errors. (Returned,
      walkDirectory (platform h) (readdir (Some (rootNode h))) (REPO_ROOT h) ''.'' ?o errors))"
    by (rule rule_ok_walk)
  then show ?thesis
    unfolding validateNoNestedPackageJson_def [abs_def] .
qed

lemma rule_ok_source: "rule_ok (validateSourceFileLocations h config)"
proof -
  let ?o = "\<lparr>skipDirs = Some {''node_modules'', ''dist'', ''.git'', ''.husky'', ''.worktrees''},
         onDirectory = None, onFile = Some (sourceFileLocations_onFile config)\<rparr>"
  have "apply_event ?o s ev = s @ apply_event ?o [] ev" for s ev
    by (cases ev) (simp_all add: callbacks_append(2) [of _ _ _ s])
  moreover have "list_all severity_matches_type (apply_event ?o [] ev)" for ev
    by (cases ev) (simp_all add: callbacks_ok)
  ultimately have "rule_ok (\<lambda>errors. (Returned,
      walkDirectory (platform h) (readdir (Some (rootNode h))) (REPO_ROOT h) ''.'' ?o errors))"
    by (rule rule_ok_walk)
  then show ?thesis
    unfolding validateSourceFileLocations_def [abs_def] .
qed

lemma rule_ok_naming: "rule_ok (validateTestFileNaming h)"
proof -
  let ?o = "\<lparr>skipDirs = Some COMMON_SKIP_DIRS, onDirectory = None,
         onFile = Some testFileNaming_onFile\<rparr>"
  have "apply_event ?o s ev = s @ apply_event ?o [] ev" for s ev
    by (cases ev) (simp_all add: callbacks_append(3) [of _ _ s])
  moreover have "list_all severity_matches_type (apply_event ?o [] ev)" for ev
    by (cases ev) (simp_all add: callbacks_ok)
  ultimately have "rule_ok (\<lambda>errors. (Returned,
      walkDirectory (platform h) (readdir (Some (rootNode h))) (REPO_ROOT h) ''.'' ?o errors))"
    by (rule rule_ok_walk)
  then show ?thesis
    unfolding validateTestFileNaming_def [abs_def] .
qed

lemma rule_ok_shell: "rule_ok (validateNoShellScripts h)"
proof -
  let ?o = "\<lparr>skipDirs = Some SKIP_DIRS_WITH_HUSKY, onDirectory = None,
         onFile = Some noShellScripts_onFile\<rparr>"
  have "apply_event ?o s ev = s @ apply_event ?o [] ev" for s ev
    by (cases ev) (simp_all add: callbacks_append(4) [of _ _ s])
  moreover have "list_all severity_matches_type (apply_event ?o [] ev)" for ev
    by (cases ev) (simp_all add: callbacks_ok)
  ultimately have "rule_ok (\<lambda>errors. (Returned,
      walkDirectory (platform h) (readdir (Some (rootNode h))) (REPO_ROOT h) ''.'' ?o errors))"
    by (rule rule_ok_walk)
  then show ?thesis
    unfolding validateNoShellScripts_def [abs_def] .
qed

lemma rule_ok_examples: "rule_ok (validateNoExamplesInPatternPackages h config)"
proof -
  define pats where "pats = (case noExamplesPatterns config of None \<Rightarrow> [] | Some l \<Rightarrow> l)"
  have eq: "validateNoExamplesInPatternPackages h config =
      (if length pats = 0 then (\<lambda>errors. (Returned, errors))
       else case readdir (packagesNode h) of
              None \<Rightarrow> (\<lambda>errors. (Threw, errors))
            | Some entries \<Rightarrow> (\<lambda>errors. (Returned, fold (examples_check pats) entries errors)))"
    by (rule ext) (simp add: validateNoExamplesInPatternPackages_def pats_def split: option.splits)
  show ?thesis
    unfolding eq
    by (auto split: option.splits intro!: rule_ok_const rule_ok_fold
        simp: callbacks_ok intro: callbacks_append(7))
qed

lemma rule_ok_scripts: "rule_ok (validateScriptsLocation h config)"
proof -
  define allowed where
    "allowed = set (case allowedScriptsPackages config of None \<Rightarrow> [''dev-tools''] | Some l \<Rightarrow> l)"
  have eq: "validateScriptsLocation h config =
      (case readdir (packagesNode h) of
              None \<Rightarrow> (\<lambda>errors. (Threw, errors))
            | Some entries \<Rightarrow> (\<lambda>errors. (Returned, fold (scripts_check allowed) entries errors)))"
    by (rule ext) (simp add: validateScriptsLocation_def allowed_def split: option.splits)
  show ?thesis
    unfolding eq
    by (auto split: option.splits intro!: rule_ok_const rule_ok_fold
        simp: callbacks_ok intro: callbacks_append(8))
qed

lemma rule_ok_forEach:
  assumes app: "\<And>l d r s. check l d r s = s @ check l d r []"
    and ok: "\<And>l d r. list_all severity_matches_type (check l d r [])"
  shows "rule_ok (forEachPackageFixturesDir h check)"
proof (cases "readdir (packagesNode h)")
  case None
  then have "forEachPackageFixturesDir h check = (\<lambda>errors. (Threw, errors))"
    by (intro ext) (simp add: forEachPackageFixturesDir_def)
  then show ?thesis by (simp add: rule_ok_const)
next
  case (Some entries)
  define f where "f = (\<lambda>e errs.
                     if isDirectory e then
                       check
                         (readdir (lookup (lookup (Some e) ''test'') ''fixtures''))
                         (path_join (platform h)
                            (path_join (platform h)
                               (path_join (platform h)
                                  (path_join (platform h) (REPO_ROOT h) ''packages'') (node_name e))
                               ''test'')
                            ''fixtures'')
                         (''packages/'' @ node_name e @ ''/test/fixtures'')
                         errs
                     else errs)"
  have eq: "forEachPackageFixturesDir h check = (\<lambda>errors. (Returned, fold f entries errors))"
    using Some by (intro ext) (simp add: forEachPackageFixturesDir_def f_def)
  have "f x s = s @ f x []" for x s
    unfolding f_def using app [of _ _ _ s] by simp
  moreover have "list_all severity_matches_type (f x [])" for x
    unfolding f_def using ok by simp
  ultimately show ?thesis
    unfolding eq by (rule rule_ok_fold)
qed

lemma rule_ok_staging: "rule_ok (validateNoStagingDirectories h)"
proof -
  let ?o = "\<lparr>skipDirs = None, onDirectory = Some noStaging_onDirectory, onFile = None\<rparr>"
  have app: "apply_event ?o s ev = s @ apply_event ?o [] ev" for s ev
    by (cases ev) (simp_all add: callbacks_append(5) [of _ s])
  have ok: "list_all severity_matches_type (apply_event ?o [] ev)" for ev
    by (cases ev) (simp_all add: callbacks_ok)
  show ?thesis
    unfolding validateNoStagingDirectories_def
  proof (rule rule_ok_forEach)
    show "walkDirectory (platform h) l d r ?o s = s @ walkDirectory (platform h) l d r ?o []" for l d r s
      using walk_appending [of ?o, OF app, of "platform h" l d r s]
        walk_appending [of ?o, OF app, of "platform h" l d r "[]"] by simp
    show "list_all severity_matches_type (walkDirectory (platform h) l d r ?o [])" for l d r
      using walk_appending [of ?o, OF app, of "platform h" l d r "[]"]
        list_all_concat_map [of severity_matches_type "apply_event ?o []", OF ok]
      by simp
  qed
qed

lemma rule_ok_fixtures: "rule_ok (validateTestFixtureSizes h)"
proof -
  let ?o = "\<lparr>skipDirs = None, onDirectory = None, onFile = Some fixtureSizes_onFile\<rparr>"
  have app: "apply_event ?o s ev = s @ apply_event ?o [] ev" for s ev
    by (cases ev) (simp_all add: callbacks_append(6) [of _ _ s])
  have ok: "list_all severity_matches_type (apply_event ?o [] ev)" for ev
    by (cases ev) (simp_all add: callbacks_ok)
  show ?thesis
    unfolding validateTestFixtureSizes_def
  proof (rule rule_ok_forEach)
    show "walkDirectory (platform h) l d r ?o s = s @ walkDirectory (platform h) l d r ?o []" for l d r s
      using walk_appending [of ?o, OF app, of "platform h" l d r s]
        walk_appending [of ?o, OF app, of "platform h" l d r "[]"] by simp
    show "list_all severity_matches_type (walkDirectory (platform h) l d r ?o [])" for l d r
      using walk_appending [of ?o, OF app, of "platform h" l d r "[]"]
        list_all_concat_map [of severity_matches_type "apply_event ?o []", OF ok]
      by simp
  qed
qed

lemma rule_ok_runRules: "rule_ok (runRules h config)"
  unfolding runRules_def
  by (intro rule_ok_andThen rule_ok_nested rule_ok_source rule_ok_naming rule_ok_examples
      rule_ok_scripts rule_ok_shell rule_ok_staging rule_ok_fixtures)

section \<open>Runs on the example repositories\<close>

lemmas eval_defs =
  validate_def andThen_def exitIfErrors_def
  validateNoNestedPackageJson_def validateSourceFileLocations_def validateTestFileNaming_def
  validateNoExamplesInPatternPackages_def validateScriptsLocation_def validateNoShellScripts_def
  validateNoStagingDirectories_def validateTestFixtureSizes_def forEachPackageFixturesDir_def
  nestedPackageJson_onFile_def sourceFileLocations_onFile_def testFileNaming_onFile_def
  check_spec_suffix_def check_integration_location_def check_system_location_def
  check_unit_in_special_dir_def noShellScripts_onFile_def noStaging_onDirectory_def
  fixtureSizes_onFile_def examples_check_def scripts_check_def
  walkEntries.simps(2) readdir_def lookup_def existsSync_def packagesNode_def path_join_def
  emptyConfig_def COMMON_SKIP_DIRS_def SKIP_DIRS_WITH_HUSKY_def WORKTREES_DIR_def
  normalizeSeparators_def backslash_def endsWith_def startsWith_def afterPackageName_def
  isInPackagesDir_def isInTestFixtures_def PACKAGE_CONFIG_PATTERN_def
  BUILT_IN_PACKAGE_PATTERNS_def packageSubdirPattern_def BUILT_IN_ROOT_TS_FILES_def
  extension_def lastIndexOf_def substring_def toLowerCase_def toLowerChar_def
  FORBIDDEN_EXTENSIONS_def ALLOWED_LARGE_EXTENSIONS_def isCompressed_def MAX_SIZE_KB_def
  Math_round_def digits.simps




lemma validate_host_err:
  "validate host_err emptyConfig [] =
     (Exited 1, [nested_manifest_error ''packages/a/src/package.json'', big_json_warning])"
  by (simp add: host_err_def big_json_warning_def nested_manifest_error_def eval_defs)


section \<open>The outcome of validate\<close>

lemma snd_andThen_exitIfErrors: "snd (andThen f exitIfErrors errors) = snd (f errors)"
  by (simp add: andThen_def exitIfErrors_def split: prod.splits outcome.splits)





lemma rule_ok_emits:
  assumes "rule_ok r"
  shows "\<forall>v\<in>set (snd (r errors)). v \<in> set errors \<or> severity_matches_type v"
proof -
  have "snd (r errors) = errors @ snd (r [])"
    using rule_okD(1) [OF assms, of errors] by simp
  then show ?thesis
    using rule_okD(2) [OF assms] by (auto simp: list_all_iff)
qed

lemma rule_ok_the_rules: "\<forall>r\<in>set (the_rules h config). rule_ok r"
  by (simp add: the_rules_def rule_ok_nested rule_ok_source rule_ok_naming rule_ok_examples
      rule_ok_scripts rule_ok_shell rule_ok_staging rule_ok_fixtures)

text \<open>
  Claim C8. Every violation that a rule, or \<open>validate\<close> as a whole, adds to the list
  has severity \<^verbatim>\<open>warning\<close> if and only if its type is \<^verbatim>\<open>large-file\<close>; so every
  violation of type \<^verbatim>\<open>forbidden-directory\<close> or \<^verbatim>\<open>structural-violation\<close> has
  severity \<^verbatim>\<open>error\<close>. What was in the list before is left as it was.
\<close>

theorem severity_follows_type:
  "(\<forall>r\<in>set (the_rules h config). \<forall>v\<in>set (snd (r errors)).
       v \<in> set errors \<or> ((severity v = Warning) = (type v = LARGE_FILE)))
   \<and> (\<forall>v\<in>set (snd (validate h config errors)).
         v \<in> set errors \<or> ((severity v = Warning) = (type v = LARGE_FILE)))"
proof
  show "\<forall>r\<in>set (the_rules h config). \<forall>v\<in>set (snd (r errors)).
       v \<in> set errors \<or> ((severity v = Warning) = (type v = LARGE_FILE))"
    using rule_ok_the_rules [of h config] rule_ok_emits
    unfolding severity_matches_type_def by blast
  have "snd (validate h config errors) = snd (runRules h config errors)"
    by (simp add: validate_runRules snd_andThen_exitIfErrors)
  then show "\<forall>v\<in>set (snd (validate h config errors)).
         v \<in> set errors \<or> ((severity v = Warning) = (type v = LARGE_FILE))"
    using rule_ok_emits [OF rule_ok_runRules, of h config errors]
    unfolding severity_matches_type_def by simp
qed

theorem severity_follows_type_witness:
  "validateTestFixtureSizes host_err \<in> set (the_rules host_err emptyConfig)
   \<and> snd (validate host_err emptyConfig [])
       = [nested_manifest_error ''packages/a/src/package.json'', big_json_warning]
   \<and> type (nested_manifest_error ''packages/a/src/package.json'') = FORBIDDEN_DIRECTORY
   \<and> severity (nested_manifest_error ''packages/a/src/package.json'') = Error
   \<and> type big_json_warning = LARGE_FILE \<and> severity big_json_warning = Warning"
  using severity_follows_type [of host_err emptyConfig "[]"]
  by (simp add: validate_host_err the_rules_def nested_manifest_error_def big_json_warning_def)

section \<open>Two runs\<close>




section \<open>The exit status\<close>




end
